theory Spec2Isabelle
  imports Main "HOL-Library.AList" "HOL-Library.Sublist"
begin

section \<open>Python values, exceptions and strings\<close>

text \<open>
  The program is \<^verbatim>\<open>native_package_install.py\<close> (Python 2). Every function that can
  raise returns a value of \<open>py_error + 'a\<close>, with \<open>Inl\<close> the exception that leaves the
  function. All exception classes below are subclasses of Python's \<open>Exception\<close>, so a
  handler \<^verbatim>\<open>except Exception\<close> catches each of them.
\<close>

datatype errno = EEXIST | ENOENT | ENOTDIR | EACCES | ENOSPC | EROFS

datatype py_error =
    OSError errno
  | IOError
  | ValueError
  | KeyError
  | TypeError
  | AttributeError
  | URLError
  | ReadError

type_synonym 'a result = "py_error + 'a"

definition then_do :: "'a result \<Rightarrow> ('a \<Rightarrow> 'b result) \<Rightarrow> 'b result" where
  "then_do m f = (case m of Inl e \<Rightarrow> Inl e | Inr x \<Rightarrow> f x)"

text \<open>
  A parsed JSON document. An object is the list of its items in the order the parser
  kept them (\<^verbatim>\<open>collections.OrderedDict\<close> for the config files). Numbers are kept as
  integers: no function of the program looks at a number.
\<close>

datatype json =
    JNull
  | JBool bool
  | JNumber int
  | JString string
  | JArray "json list"
  | JObject "(string \<times> json) list"

text \<open>\<^verbatim>\<open>obj[key]\<close> for a string key: only a dict can be subscripted by a string.\<close>

fun py_getitem :: "json \<Rightarrow> string \<Rightarrow> json result" where
  "py_getitem (JObject kvs) k = (case map_of kvs k of None \<Rightarrow> Inl KeyError | Some v \<Rightarrow> Inr v)"
| "py_getitem _ k = Inl TypeError"

text \<open>
  \<^verbatim>\<open>x in container\<close> for a string \<open>x\<close>: equality with an element of a list, substring of
  a string, key of a dict; anything else is not iterable.
\<close>

fun py_in :: "string \<Rightarrow> json \<Rightarrow> bool result" where
  "py_in x (JArray xs) = Inr (JString x \<in> set xs)"
| "py_in x (JString s) = Inr (sublist x s)"
| "py_in x (JObject kvs) = Inr (x \<in> fst ` set kvs)"
| "py_in x _ = Inl TypeError"

text \<open>\<^verbatim>\<open>container.append(x)\<close>: only a list has the method.\<close>

fun py_append :: "json \<Rightarrow> string \<Rightarrow> json result" where
  "py_append (JArray xs) x = Inr (JArray (xs @ [JString x]))"
| "py_append _ x = Inl AttributeError"

text \<open>
  \<^verbatim>\<open>for x in container\<close>: the elements of a list, the characters of a string, the keys
  of a dict (for a plain dict, in the order of the item list that stands for it).
\<close>

fun py_iter :: "json \<Rightarrow> json list result" where
  "py_iter (JArray xs) = Inr xs"
| "py_iter (JString s) = Inr (map (\<lambda>c. JString [c]) s)"
| "py_iter (JObject kvs) = Inr (map (\<lambda>kv. JString (fst kv)) kvs)"
| "py_iter _ = Inl TypeError"

text \<open>In-place change of the value under a key that the dict already has.\<close>

fun set_item :: "json \<Rightarrow> string \<Rightarrow> json \<Rightarrow> json" where
  "set_item (JObject kvs) k v = JObject (AList.update k v kvs)"
| "set_item d k v = d"

text \<open>\<^verbatim>\<open>s.split(sep)\<close> with a one-character separator: one more segment than separators.\<close>

fun py_split :: "char \<Rightarrow> string \<Rightarrow> string list" where
  "py_split sep [] = [[]]"
| "py_split sep (c # cs) =
     (if c = sep then [] # py_split sep cs
      else (case py_split sep cs of
              [] \<Rightarrow> [[c]]
            | seg # segs \<Rightarrow> (c # seg) # segs))"

text \<open>
  \<^verbatim>\<open>s.lstrip(chars)\<close> and \<^verbatim>\<open>s.rstrip(chars)\<close>: the argument is a set of characters; every
  leading (trailing) character of \<open>s\<close> that is in the set is removed.
\<close>

definition lstrip :: "string \<Rightarrow> string \<Rightarrow> string" where
  "lstrip chars s = dropWhile (\<lambda>c. c \<in> set chars) s"

definition rstrip :: "string \<Rightarrow> string \<Rightarrow> string" where
  "rstrip chars s = rev (dropWhile (\<lambda>c. c \<in> set chars) (rev s))"

text \<open>\<^verbatim>\<open>s.replace(a, b)\<close> for one-character strings.\<close>

definition replace_char :: "char \<Rightarrow> char \<Rightarrow> string \<Rightarrow> string" where
  "replace_char a b s = map (\<lambda>c. if c = a then b else c) s"

text \<open>\<^verbatim>\<open>posixpath.join(a, b)\<close>: an absolute second component discards the first.\<close>

fun is_absolute :: "string \<Rightarrow> bool" where
  "is_absolute [] = False"
| "is_absolute (c # cs) = (c = CHR ''/'')"

definition os_path_join :: "string \<Rightarrow> string \<Rightarrow> string" where
  "os_path_join a b =
     (if is_absolute b then b
      else if a = [] \<or> last a = CHR ''/'' then a @ b
      else a @ ''/'' @ b)"

section \<open>The file system, the network and the process table\<close>

text \<open>
  A file holds either the text of a JSON document, kept as the parsed document together
  with the indentation it was written with, a \<^verbatim>\<open>tar.gz\<close> archive, kept as the list of
  its member files, or any other text.
\<close>

datatype content =
    JsonText "nat option" json
  | Archive "(string \<times> content) list"
  | OtherText string

datatype node = File content | Dir

text \<open>
  The tree \<open>nodes\<close> says what stands at each place. A path names a place through
  \<open>resolve\<close>, the file system's own reading of a path (the working directory, \<^verbatim>\<open>.\<close> and
  \<^verbatim>\<open>..\<close>, repeated separators, links): two paths name the same file exactly when
  \<open>resolve\<close> gives them the same place. A place is written as a normal path, so that the
  places above it are its proper prefixes. No function of the program changes \<open>resolve\<close>.

  \<open>mkdir_fault\<close> is the environment's verdict on creating the directory at a place
  (permissions, a read-only or full disk); \<open>http\<close> is what a GET of a URL returns;
  \<open>spawned\<close> lists the argument vectors of the child processes started so far, which run
  on their own; \<open>stdout\<close> lists the lines printed.
\<close>

record world =
  nodes :: "string \<Rightarrow> node option"
  resolve :: "string \<Rightarrow> string"
  mkdir_fault :: "string \<Rightarrow> py_error option"
  http :: "string \<Rightarrow> content result"
  spawned :: "string list list"
  stdout :: "string list"

definition os_path_isdir :: "world \<Rightarrow> string \<Rightarrow> bool" where
  "os_path_isdir w p = (nodes w (resolve w p) = Some Dir)"

definition os_path_exists :: "world \<Rightarrow> string \<Rightarrow> bool" where
  "os_path_exists w p = (nodes w (resolve w p) \<noteq> None)"

text \<open>
  The places above a place, from the top down: its proper prefixes that end before a
  separator. The parent is the last of them (none for a place without separator, which
  lies in the working directory, or directly under the root: both exist).
\<close>

definition ancestors :: "string \<Rightarrow> string list" where
  "ancestors k = [take i k. i \<leftarrow> [1..<length k], k ! i = CHR ''/'', k ! (i - 1) \<noteq> CHR ''/'']"

definition dirname :: "string \<Rightarrow> string" where
  "dirname k = rev (drop 1 (dropWhile (\<lambda>c. c \<noteq> CHR ''/'') (rev k)))"

text \<open>
  \<^verbatim>\<open>os.mkdir\<close> at a place: refused by the environment, or the place is taken, or its
  parent is missing or is a regular file; otherwise the place becomes a directory.
\<close>

definition mkdir :: "world \<Rightarrow> string \<Rightarrow> world result" where
  "mkdir w k =
     (case mkdir_fault w k of
        Some e \<Rightarrow> Inl e
      | None \<Rightarrow>
          if nodes w k \<noteq> None then Inl (OSError EEXIST)
          else if dirname k = [] then Inr (w\<lparr>nodes := (nodes w)(k \<mapsto> Dir)\<rparr>)
          else (case nodes w (dirname k) of
                  None \<Rightarrow> Inl (OSError ENOENT)
                | Some (File c) \<Rightarrow> Inl (OSError ENOTDIR)
                | Some Dir \<Rightarrow> Inr (w\<lparr>nodes := (nodes w)(k \<mapsto> Dir)\<rparr>)))"

text \<open>
  \<^verbatim>\<open>os.makedirs(name)\<close>: when the directory above \<open>name\<close> does not exist it is made first,
  by the same function, and an \<open>EEXIST\<close> from that call is ignored; then \<open>name\<close> itself is
  made with \<^verbatim>\<open>os.mkdir\<close>. A call that raises leaves behind the directories it has made:
  the result is the tree after the call and the exception, if any. \<open>heads\<close> lists the
  places above \<open>k\<close>, the nearest first.
\<close>

definition mkdir_then :: "world \<Rightarrow> string \<Rightarrow> world \<times> py_error option" where
  "mkdir_then w k = (case mkdir w k of Inl e \<Rightarrow> (w, Some e) | Inr w' \<Rightarrow> (w', None))"

fun makedirs_at :: "world \<Rightarrow> string \<Rightarrow> string list \<Rightarrow> world \<times> py_error option" where
  "makedirs_at w k [] = mkdir_then w k"
| "makedirs_at w k (head # heads) =
     (if nodes w head = None
      then (case makedirs_at w head heads of
              (w1, None) \<Rightarrow> mkdir_then w1 k
            | (w1, Some e) \<Rightarrow> if e = OSError EEXIST then mkdir_then w1 k else (w1, Some e))
      else mkdir_then w k)"

definition os_makedirs :: "world \<Rightarrow> string \<Rightarrow> world \<times> py_error option" where
  "os_makedirs w p = makedirs_at w (resolve w p) (rev (ancestors (resolve w p)))"

text \<open>
  \<^verbatim>\<open>open(p).read()\<close> and \<^verbatim>\<open>open(p, 'w').write(c)\<close>. They fail for what the tree shows:
  a missing file, a directory in the place of the file, a missing parent directory.
\<close>

definition read_file :: "world \<Rightarrow> string \<Rightarrow> content result" where
  "read_file w p = (case nodes w (resolve w p) of Some (File c) \<Rightarrow> Inr c | _ \<Rightarrow> Inl IOError)"

definition write_at :: "world \<Rightarrow> string \<Rightarrow> content \<Rightarrow> world result" where
  "write_at w k c =
     (case nodes w k of
        Some Dir \<Rightarrow> Inl IOError
      | Some (File old) \<Rightarrow> Inr (w\<lparr>nodes := (nodes w)(k \<mapsto> File c)\<rparr>)
      | None \<Rightarrow>
          if dirname k = [] \<or> nodes w (dirname k) = Some Dir
          then Inr (w\<lparr>nodes := (nodes w)(k \<mapsto> File c)\<rparr>)
          else Inl IOError)"

definition write_file :: "world \<Rightarrow> string \<Rightarrow> content \<Rightarrow> world result" where
  "write_file w p c = write_at w (resolve w p) c"

text \<open>\<^verbatim>\<open>urllib2.urlopen(url).read()\<close>: the body the server sends, or the error.\<close>

definition urlopen :: "world \<Rightarrow> string \<Rightarrow> (world \<times> content) result" where
  "urlopen w url = then_do (http w url) (\<lambda>body. Inr (w, body))"

text \<open>\<^verbatim>\<open>json.load\<close>: a file that is not JSON text raises \<open>ValueError\<close>.\<close>

fun json_load :: "content \<Rightarrow> json result" where
  "json_load (JsonText ind d) = Inr d"
| "json_load _ = Inl ValueError"

section \<open>The program\<close>

text \<open>
  A package descriptor is the dict \<^verbatim>\<open>{'namespace': .., 'name': .., 'version': ..}\<close>. The
  manifest maps package keys to version strings; it is the list of its items in the
  order \<^verbatim>\<open>raw.items()\<close> gives them.
\<close>

record package =
  namespace :: string
  name :: string
  version :: string

text \<open>
  \<^verbatim>\<open>read_native_elm_package\<close> loads the manifest; \<^verbatim>\<open>raw.items()\<close> needs a dict. Versions
  are strings, as in the data model: a manifest with another value for a version is
  rejected when it is read (Python would format the value with \<^verbatim>\<open>str\<close>).
\<close>

fun manifest_item :: "string \<times> json \<Rightarrow> (string \<times> string) result" where
  "manifest_item (k, JString v) = Inr (k, v)"
| "manifest_item (k, _) = Inl TypeError"

fun manifest_items :: "(string \<times> json) list \<Rightarrow> (string \<times> string) list result" where
  "manifest_items [] = Inr []"
| "manifest_items (kv # kvs) =
     then_do (manifest_item kv) (\<lambda>x. then_do (manifest_items kvs) (\<lambda>xs. Inr (x # xs)))"

definition read_native_elm_package :: "world \<Rightarrow> string \<Rightarrow> (string \<times> string) list result" where
  "read_native_elm_package w package_file =
     then_do (read_file w package_file) (\<lambda>c.
     then_do (json_load c) (\<lambda>d.
       case d of JObject kvs \<Rightarrow> manifest_items kvs | _ \<Rightarrow> Inl AttributeError))"

definition format_url :: "package \<Rightarrow> string" where
  "format_url p =
     ''https://github.com/'' @ namespace p @ ''/'' @ name p @ ''/archive/'' @ version p @ ''.tar.gz''"

text \<open>
  \<^verbatim>\<open>namespace, package_name = name.split('/')\<close> raises \<open>ValueError\<close> unless the split
  gives exactly two segments.
\<close>

fun parse_json :: "(string \<times> string) list \<Rightarrow> package list result" where
  "parse_json [] = Inr []"
| "parse_json ((key, ver) # raw) =
     (case py_split CHR ''/'' key of
        [ns, package_name] \<Rightarrow>
          then_do (parse_json raw) (\<lambda>result.
            Inr (\<lparr>namespace = ns, name = package_name, version = ver\<rparr> # result))
      | _ \<Rightarrow> Inl ValueError)"

text \<open>
  \<^verbatim>\<open>format_vendor_dir\<close>: the \<^verbatim>\<open>try ... except Exception: pass\<close> around
  \<^verbatim>\<open>os.makedirs\<close> continues with the path whatever was raised.
\<close>

definition format_vendor_dir :: "world \<Rightarrow> string \<Rightarrow> string \<Rightarrow> (world \<times> string) result" where
  "format_vendor_dir w base ns =
     (let path = os_path_join base ns in
      case os_makedirs w path of
        (w', Some e) \<Rightarrow> Inr (w', path)
      | (w', None) \<Rightarrow> Inr (w', path))"

definition package_dir :: "world \<Rightarrow> string \<Rightarrow> package \<Rightarrow> (world \<times> string) result" where
  "package_dir w vendor_dir p =
     then_do (format_vendor_dir w vendor_dir (namespace p)) (\<lambda>(w', vendor).
       Inr (w', vendor @ ''/'' @ name p @ ''-'' @ version p))"

definition format_tar_file :: "world \<Rightarrow> string \<Rightarrow> package \<Rightarrow> (world \<times> string) result" where
  "format_tar_file w vendor_dir p =
     then_do (format_vendor_dir w vendor_dir (namespace p)) (\<lambda>(w1, vendor).
     then_do (package_dir w1 vendor_dir p) (\<lambda>(w2, pdir).
       Inr (w2, pdir @ ''-tar.gz'')))"

definition format_native_name :: "string \<Rightarrow> string \<Rightarrow> string" where
  "format_native_name ns nm =
     ''_'' @ replace_char CHR ''-'' CHR ''_'' ns @ ''$'' @ replace_char CHR ''-'' CHR ''_'' nm"

text \<open>
  \<^verbatim>\<open>namespace_from_repo\<close>: the repository is whatever JSON value the config holds; only
  a string has \<^verbatim>\<open>lstrip\<close>.
\<close>

fun namespace_from_repo :: "json \<Rightarrow> string list result" where
  "namespace_from_repo (JString repository) =
     (case py_split CHR ''/'' (rstrip ''.git'' (lstrip ''https://github.com/'' repository)) of
        [ns, nm] \<Rightarrow> Inr [ns, nm]
      | _ \<Rightarrow> Inl ValueError)"
| "namespace_from_repo _ = Inl AttributeError"


text \<open>
  \<^verbatim>\<open>fetch_packages\<close>: download, store and unpack each package, in list order. Unpacking
  writes every member of the archive under the vendor directory, creating the
  directories above it. The function returns its argument \<open>packages\<close>, which the caller
  ignores.
\<close>

definition make_parents :: "world \<Rightarrow> string \<Rightarrow> world" where
  "make_parents w k =
     w\<lparr>nodes := (\<lambda>q. if q \<in> set (ancestors k) \<and> nodes w q = None then Some Dir else nodes w q)\<rparr>"

fun extractall :: "world \<Rightarrow> string \<Rightarrow> (string \<times> content) list \<Rightarrow> world result" where
  "extractall w vendor [] = Inr w"
| "extractall w vendor ((member, c) # members) =
     then_do (write_at (make_parents w (resolve w (os_path_join vendor member)))
                (resolve w (os_path_join vendor member)) c)
       (\<lambda>w'. extractall w' vendor members)"

definition tarfile_open :: "world \<Rightarrow> string \<Rightarrow> (string \<times> content) list result" where
  "tarfile_open w p =
     then_do (read_file w p) (\<lambda>c. case c of Archive members \<Rightarrow> Inr members | _ \<Rightarrow> Inl ReadError)"

definition print_line :: "world \<Rightarrow> string \<Rightarrow> world" where
  "print_line w line = w\<lparr>stdout := stdout w @ [line]\<rparr>"

fun fetch_packages :: "world \<Rightarrow> string \<Rightarrow> package list \<Rightarrow> world result" where
  "fetch_packages w vendor_dir [] = Inr w"
| "fetch_packages w vendor_dir (p # packages) =
     then_do (format_tar_file w vendor_dir p) (\<lambda>(w1, tar_filename).
     then_do (format_vendor_dir w1 vendor_dir (namespace p)) (\<lambda>(w2, vendor).
     then_do (urlopen
                (print_line w2 (''Downloading '' @ namespace p @ ''/'' @ name p @ '' '' @ version p))
                (format_url p)) (\<lambda>(w3, tar_file).
     then_do (write_file w3 tar_filename tar_file) (\<lambda>w4.
     then_do (tarfile_open w4 tar_filename) (\<lambda>members.
     then_do (extractall w4 vendor members) (\<lambda>w5.
       fetch_packages w5 vendor_dir packages))))))"

definition get_source_dirs :: "world \<Rightarrow> string \<Rightarrow> package \<Rightarrow> (world \<times> json) result" where
  "get_source_dirs w vendor_dir p =
     then_do (package_dir w vendor_dir p) (\<lambda>(w1, pdir).
     then_do (read_file w1 (os_path_join pdir ''elm-package.json'')) (\<lambda>c.
     then_do (json_load c) (\<lambda>data.
     then_do (py_getitem data ''source-directories'') (\<lambda>dirs.
       Inr (w1, dirs)))))"

text \<open>
  \<^verbatim>\<open>munge_names\<close>: one \<^verbatim>\<open>find ... -exec sed\<close> child process per package, started and not
  waited for. What the children do to the files happens outside the run and is not part
  of the state.
\<close>

definition sed_argv :: "string \<Rightarrow> string \<Rightarrow> string \<Rightarrow> string list" where
  "sed_argv pdir old new =
     [''find'', pdir, ''-type'', ''f'', ''-exec'', ''sed'', ''-i'', [], ''-e'',
      ''s/'' @ old @ ''/'' @ new @ ''/g'', ''{}'', '';'']"

fun munge_each :: "world \<Rightarrow> string \<Rightarrow> string \<Rightarrow> string \<Rightarrow> package list \<Rightarrow> world result" where
  "munge_each w vendor_dir ns nm [] = Inr w"
| "munge_each w vendor_dir ns nm (p # packages) =
     then_do (package_dir w vendor_dir p) (\<lambda>(w1, pdir).
       munge_each
         (w1\<lparr>spawned := spawned w1 @
            [sed_argv pdir (format_native_name (namespace p) (name p)) (format_native_name ns nm)]\<rparr>)
         vendor_dir ns nm packages)"

definition munge_names :: "world \<Rightarrow> string \<Rightarrow> json \<Rightarrow> package list \<Rightarrow> world result" where
  "munge_names w vendor_dir repository packages =
     then_do (namespace_from_repo repository) (\<lambda>r.
       case r of
         [ns, nm] \<Rightarrow> munge_each w vendor_dir ns nm packages
       | _ \<Rightarrow> Inl ValueError)"

text \<open>
  \<^verbatim>\<open>update_elm_package\<close>, innermost loop first. \<open>path\<close> is the string
  \<^verbatim>\<open>'../' * config.count('/')\<close>; \<^verbatim>\<open>os.path.join\<close> of three components joins from the left
  and needs a string for each.
\<close>

definition ascent :: "string \<Rightarrow> string" where
  "ascent config = concat (replicate (count_list config CHR ''/'') ''../'')"

fun join_dir_name :: "string \<Rightarrow> string \<Rightarrow> json \<Rightarrow> string result" where
  "join_dir_name path pdir (JString dir_name) = Inr (os_path_join (os_path_join path pdir) dir_name)"
| "join_dir_name path pdir _ = Inl AttributeError"

definition add_source_directory :: "json \<Rightarrow> string \<Rightarrow> json result" where
  "add_source_directory data relative_path =
     then_do (py_getitem data ''source-directories'') (\<lambda>dirs.
     then_do (py_in relative_path dirs) (\<lambda>present.
       if present then Inr data
       else then_do (py_append dirs relative_path) (\<lambda>dirs'.
              Inr (set_item data ''source-directories'' dirs'))))"

fun update_dirs ::
  "world \<Rightarrow> string \<Rightarrow> string \<Rightarrow> package \<Rightarrow> json \<Rightarrow> json list \<Rightarrow> (world \<times> json) result" where
  "update_dirs w vendor_dir path p data [] = Inr (w, data)"
| "update_dirs w vendor_dir path p data (dir_name # rest) =
     then_do (package_dir w vendor_dir p) (\<lambda>(w1, pdir).
     then_do (join_dir_name path pdir dir_name) (\<lambda>relative_path.
     then_do (add_source_directory data relative_path) (\<lambda>data'.
       update_dirs w1 vendor_dir path p data' rest)))"

fun update_packages ::
  "world \<Rightarrow> string \<Rightarrow> string \<Rightarrow> json \<Rightarrow> package list \<Rightarrow> (world \<times> json) result" where
  "update_packages w vendor_dir path data [] = Inr (w, data)"
| "update_packages w vendor_dir path data (p # packages) =
     then_do (get_source_dirs w vendor_dir p) (\<lambda>(w1, current_package_dirs).
     then_do (py_iter current_package_dirs) (\<lambda>dirs.
     then_do (update_dirs w1 vendor_dir path p data dirs) (\<lambda>(w2, data').
       update_packages w2 vendor_dir path data' packages)))"

fun update_configs ::
  "world \<Rightarrow> string \<Rightarrow> package list \<Rightarrow> json \<Rightarrow> string list \<Rightarrow> (world \<times> json) result" where
  "update_configs w vendor_dir packages repository [] = Inr (w, repository)"
| "update_configs w vendor_dir packages repository (config # configs) =
     then_do (read_file w config) (\<lambda>c.
     then_do (json_load c) (\<lambda>data.
     then_do (py_getitem data ''repository'') (\<lambda>repository'.
     then_do (py_getitem data ''source-directories'') (\<lambda>source_directories.
     then_do (update_packages w vendor_dir (ascent config) data packages) (\<lambda>(w1, data').
     then_do (write_file w1 config (JsonText (Some 4) data')) (\<lambda>w2.
       update_configs w2 vendor_dir packages repository' configs))))))"

text \<open>
  \<open>configs\<close> is \<open>None\<close> when the command line gives no \<^verbatim>\<open>--elm-config\<close>; the \<^verbatim>\<open>for\<close> loop
  over \<^verbatim>\<open>None\<close> raises \<open>TypeError\<close>.
\<close>

definition update_elm_package ::
  "world \<Rightarrow> string \<Rightarrow> string list option \<Rightarrow> package list \<Rightarrow> (world \<times> json) result" where
  "update_elm_package w vendor_dir configs packages =
     (case configs of
        None \<Rightarrow> Inl TypeError
      | Some cs \<Rightarrow> update_configs w vendor_dir packages (JString []) cs)"

fun filter_packages :: "world \<Rightarrow> string \<Rightarrow> package list \<Rightarrow> (world \<times> package list) result" where
  "filter_packages w vendor_dir [] = Inr (w, [])"
| "filter_packages w vendor_dir (x # packages) =
     then_do (format_tar_file w vendor_dir x) (\<lambda>(w1, tar).
     then_do (filter_packages w1 vendor_dir packages) (\<lambda>(w2, kept).
       Inr (w2, if \<not> os_path_isdir w1 tar then x # kept else kept)))"

definition main :: "world \<Rightarrow> string \<Rightarrow> string list option \<Rightarrow> string \<Rightarrow> world result" where
  "main w native_elm_package configs vendor =
     then_do (read_native_elm_package w native_elm_package) (\<lambda>raw_json.
     then_do (parse_json raw_json) (\<lambda>parsed.
     then_do (filter_packages w vendor parsed) (\<lambda>(w1, packages).
     then_do (fetch_packages w1 vendor packages) (\<lambda>w2.
     then_do (update_elm_package w2 vendor configs packages) (\<lambda>(w3, repository).
       munge_names w3 vendor repository packages)))))"

section \<open>Notions used in the statements\<close>

text \<open>The descriptor that a manifest item with exactly one separator in its key stands for.\<close>

definition descriptor :: "string \<times> string \<Rightarrow> package" where
  "descriptor kv =
     \<lparr>namespace = takeWhile (\<lambda>c. c \<noteq> CHR ''/'') (fst kv),
      name = tl (dropWhile (\<lambda>c. c \<noteq> CHR ''/'') (fst kv)),
      version = snd kv\<rparr>"

text \<open>The path that \<open>package_dir\<close> returns, without its effect on the file system.\<close>

definition package_path :: "string \<Rightarrow> package \<Rightarrow> string" where
  "package_path vendor_dir p =
     os_path_join vendor_dir (namespace p) @ ''/'' @ name p @ ''-'' @ version p"

definition elm_package_filename :: "string \<Rightarrow> package \<Rightarrow> string" where
  "elm_package_filename vendor_dir p = os_path_join (package_path vendor_dir p) ''elm-package.json''"

text \<open>
  The regular files of a world, by place and by path, and the document and the
  repository of a config file.
\<close>

definition files :: "world \<Rightarrow> string \<Rightarrow> content option" where
  "files w k = (case nodes w k of Some (File c) \<Rightarrow> Some c | _ \<Rightarrow> None)"

definition file_at :: "world \<Rightarrow> string \<Rightarrow> content option" where
  "file_at w p = files w (resolve w p)"

text \<open>What the path functions may do to a world: make directories, and nothing else.\<close>

definition only_dirs_made :: "world \<Rightarrow> world \<Rightarrow> bool" where
  "only_dirs_made w w' =
     (files w' = files w \<and> resolve w' = resolve w \<and> mkdir_fault w' = mkdir_fault w \<and>
      http w' = http w \<and> spawned w' = spawned w \<and> stdout w' = stdout w)"

definition config_repository :: "world \<Rightarrow> string \<Rightarrow> json result" where
  "config_repository w config =
     then_do (read_file w config) (\<lambda>c.
     then_do (json_load c) (\<lambda>data. py_getitem data ''repository''))"

definition config_document :: "world \<Rightarrow> string \<Rightarrow> json result" where
  "config_document w config = then_do (read_file w config) json_load"

text \<open>
  The config updater reads and writes regular files only, so its result is a function
  of the files it starts from, \<open>F\<close>, and of the resolution of paths, \<open>R\<close>. The next functions are \<open>get_source_dirs\<close> and the three
  loops of \<open>update_elm_package\<close> over the files alone; the lemmas
  \<open>get_source_dirs_files\<close>, \<open>update_dirs_files\<close>, \<open>update_packages_files\<close> and
  \<open>update_configs_files\<close> tie each to the function it mirrors.
\<close>

definition lookup_file :: "(string \<Rightarrow> content option) \<Rightarrow> string \<Rightarrow> content result" where
  "lookup_file F k = (case F k of Some c \<Rightarrow> Inr c | None \<Rightarrow> Inl IOError)"

definition source_dirs_of ::
  "(string \<Rightarrow> string) \<Rightarrow> (string \<Rightarrow> content option) \<Rightarrow> string \<Rightarrow> package \<Rightarrow> json result" where
  "source_dirs_of R F vendor_dir p =
     then_do (lookup_file F (R (elm_package_filename vendor_dir p))) (\<lambda>c.
     then_do (json_load c) (\<lambda>data. py_getitem data ''source-directories''))"

fun add_dirs :: "string \<Rightarrow> string \<Rightarrow> json \<Rightarrow> json list \<Rightarrow> json result" where
  "add_dirs path pdir data [] = Inr data"
| "add_dirs path pdir data (dir_name # rest) =
     then_do (join_dir_name path pdir dir_name) (\<lambda>relative_path.
     then_do (add_source_directory data relative_path) (\<lambda>data'.
       add_dirs path pdir data' rest))"

fun merge_packages ::
  "(string \<Rightarrow> string) \<Rightarrow> (string \<Rightarrow> content option) \<Rightarrow> string \<Rightarrow> string \<Rightarrow> json \<Rightarrow>
     package list \<Rightarrow> json result" where
  "merge_packages R F vendor_dir path data [] = Inr data"
| "merge_packages R F vendor_dir path data (p # packages) =
     then_do (source_dirs_of R F vendor_dir p) (\<lambda>current_package_dirs.
     then_do (py_iter current_package_dirs) (\<lambda>dirs.
     then_do (add_dirs path (package_path vendor_dir p) data dirs) (\<lambda>data'.
       merge_packages R F vendor_dir path data' packages)))"

fun rewrite_configs ::
  "(string \<Rightarrow> string) \<Rightarrow> (string \<Rightarrow> content option) \<Rightarrow> string \<Rightarrow> package list \<Rightarrow> json \<Rightarrow>
     string list \<Rightarrow> ((string \<Rightarrow> content option) \<times> json) result" where
  "rewrite_configs R F vendor_dir packages repository [] = Inr (F, repository)"
| "rewrite_configs R F vendor_dir packages repository (config # configs) =
     then_do (lookup_file F (R config)) (\<lambda>c.
     then_do (json_load c) (\<lambda>data.
     then_do (py_getitem data ''repository'') (\<lambda>repository'.
     then_do (py_getitem data ''source-directories'') (\<lambda>source_directories.
     then_do (merge_packages R F vendor_dir (ascent config) data packages) (\<lambda>data'.
       rewrite_configs R (F(R config \<mapsto> JsonText (Some 4) data')) vendor_dir packages
         repository' configs)))))"

text \<open>Adding a list of relative paths to a config document, one after the other.\<close>

fun add_source_directories :: "json \<Rightarrow> string list \<Rightarrow> json result" where
  "add_source_directories data [] = Inr data"
| "add_source_directories data (r # rs) =
     then_do (add_source_directory data r) (\<lambda>data'. add_source_directories data' rs)"

text \<open>A relative path is covered by a document when the membership test finds it.\<close>

definition covers :: "json \<Rightarrow> string \<Rightarrow> bool" where
  "covers data r =
     (\<exists>dirs. py_getitem data ''source-directories'' = Inr dirs \<and> py_in r dirs = Inr True)"

text \<open>
  A document grows when nothing changes but its \<^verbatim>\<open>source-directories\<close> list, which gains
  new, pairwise different entries at its end.
\<close>

definition grows :: "json \<Rightarrow> json \<Rightarrow> bool" where
  "grows d d' =
     (d' = d \<or>
      (\<exists>kvs xs new. d = JObject kvs \<and> map_of kvs ''source-directories'' = Some (JArray xs) \<and>
         d' = JObject (AList.update ''source-directories'' (JArray (xs @ new)) kvs) \<and>
         distinct new \<and> set new \<inter> set xs = {}))"

text \<open>
  A package is covered by a document when every sub-directory its metadata declares is
  already referenced; a document is saturated when all packages are; a config file is
  settled when it was written by the updater and is saturated.
\<close>

definition package_covered ::
  "(string \<Rightarrow> string) \<Rightarrow> (string \<Rightarrow> content option) \<Rightarrow> string \<Rightarrow> string \<Rightarrow> json \<Rightarrow>
     package \<Rightarrow> bool" where
  "package_covered R F vendor_dir path data p =
     (\<exists>current dirs.
        source_dirs_of R F vendor_dir p = Inr current \<and> py_iter current = Inr dirs \<and>
        (\<forall>d \<in> set dirs. \<exists>r. join_dir_name path (package_path vendor_dir p) d = Inr r \<and> covers data r))"

definition saturated ::
  "(string \<Rightarrow> string) \<Rightarrow> (string \<Rightarrow> content option) \<Rightarrow> string \<Rightarrow> string \<Rightarrow> package list \<Rightarrow>
     json \<Rightarrow> bool" where
  "saturated R F vendor_dir path packages data =
     (\<forall>p \<in> set packages. package_covered R F vendor_dir path data p)"

definition settled ::
  "(string \<Rightarrow> string) \<Rightarrow> (string \<Rightarrow> content option) \<Rightarrow> string \<Rightarrow> package list \<Rightarrow> string \<Rightarrow>
     bool" where
  "settled R F vendor_dir packages config =
     (\<exists>d r s. F (R config) = Some (JsonText (Some 4) d) \<and>
        py_getitem d ''repository'' = Inr r \<and> py_getitem d ''source-directories'' = Inr s \<and>
        saturated R F vendor_dir (ascent config) packages d)"

text \<open>
  The sub-directories that the metadata file of a package declares (none when the file
  cannot be read that far), and the references to them from a config file: as many
  \<^verbatim>\<open>../\<close> as the config path has separators, then the join of package directory and
  sub-directory.
\<close>

fun string_of :: "json \<Rightarrow> string" where
  "string_of (JString s) = s"
| "string_of _ = []"

definition declared ::
  "(string \<Rightarrow> string) \<Rightarrow> (string \<Rightarrow> content option) \<Rightarrow> string \<Rightarrow> package \<Rightarrow> string list" where
  "declared R F vendor_dir p =
     (case then_do (source_dirs_of R F vendor_dir p) py_iter of
        Inr dirs \<Rightarrow> map string_of dirs
      | Inl e \<Rightarrow> [])"

definition declared_dirs :: "world \<Rightarrow> string \<Rightarrow> package \<Rightarrow> string list" where
  "declared_dirs w vendor_dir p = declared (resolve w) (files w) vendor_dir p"

definition references :: "string \<Rightarrow> string \<Rightarrow> package \<Rightarrow> string list \<Rightarrow> string list" where
  "references config vendor_dir p ds =
     map (\<lambda>d. concat (replicate (count_list config CHR ''/'') ''../'') @
               os_path_join (package_path vendor_dir p) d) ds"

text \<open>
  What the updater may do to a config document: same keys in the same order, same value
  under every key but \<^verbatim>\<open>source-directories\<close>, and under that key the old list followed
  by new entries that differ from each other and from the old ones.
\<close>

definition only_source_directories_extended :: "json \<Rightarrow> json \<Rightarrow> bool" where
  "only_source_directories_extended d d' =
     (\<exists>kvs kvs'. d = JObject kvs \<and> d' = JObject kvs' \<and>
        map fst kvs' = map fst kvs \<and>
        (\<forall>i < length kvs. fst (kvs ! i) \<noteq> ''source-directories'' \<longrightarrow> kvs' ! i = kvs ! i) \<and>
        (\<forall>k. k \<noteq> ''source-directories'' \<longrightarrow> map_of kvs' k = map_of kvs k) \<and>
        (\<exists>v v'. map_of kvs ''source-directories'' = Some v \<and>
                 map_of kvs' ''source-directories'' = Some v' \<and>
                 (case v of
                    JArray xs \<Rightarrow> (\<exists>new. v' = JArray (xs @ new) \<and> distinct new \<and> set new \<inter> set xs = {})
                  | _ \<Rightarrow> v' = v)))"

subsection \<open>Example inputs\<close>

text \<open>
  The package, archive and documents of the end-to-end scenario, and a few worlds. The
  worlds have no links; a path names the place that \<^verbatim>\<open>os.path.normpath\<close> gives: empty
  and \<^verbatim>\<open>.\<close> components are dropped, \<^verbatim>\<open>..\<close> removes the component before it.
\<close>

fun norm_components :: "bool \<Rightarrow> string list \<Rightarrow> string list \<Rightarrow> string list" where
  "norm_components rooted new_comps [] = new_comps"
| "norm_components rooted new_comps (part # parts) =
     (if part = [] \<or> part = ''.'' then norm_components rooted new_comps parts
      else if part \<noteq> ''..'' \<or> (\<not> rooted \<and> new_comps = []) \<or>
              (new_comps \<noteq> [] \<and> last new_comps = ''..'')
      then norm_components rooted (new_comps @ [part]) parts
      else norm_components rooted (butlast new_comps) parts)"

fun join_components :: "string list \<Rightarrow> string" where
  "join_components [] = []"
| "join_components [part] = part"
| "join_components (part # parts) = part @ ''/'' @ join_components parts"

definition normpath :: "string \<Rightarrow> string" where
  "normpath p =
     (let path = join_components (norm_components (is_absolute p) [] (py_split CHR ''/'' p));
          path = (if is_absolute p then CHR ''/'' # path else path)
      in if path = [] then ''.'' else path)"

definition nav :: package where
  "nav = \<lparr>namespace = ''elm-lang'', name = ''navigation'', version = ''2.0.0''\<rparr>"

definition nav_archive :: content where
  "nav_archive = Archive
     [(''navigation-2.0.0/elm-package.json'',
        JsonText (Some 4) (JObject [(''version'', JString ''2.0.0''),
                                    (''source-directories'', JArray [JString ''src''])])),
      (''navigation-2.0.0/src/Native/Navigation.js'', OtherText ''var _elm_lang$navigation$Native = 0;'')]"

definition app_config :: json where
  "app_config = JObject [(''version'', JString ''1.0.0''),
                         (''repository'', JString ''https://github.com/acme/app.git''),
                         (''source-directories'', JArray [JString ''src'']),
                         (''dependencies'', JObject [])]"

definition nav_metadata :: json where
  "nav_metadata = JObject [(''version'', JString ''2.0.0''),
                           (''repository'', JString ''https://github.com/elm-lang/navigation.git''),
                           (''source-directories'', JArray [JString ''src''])]"

text \<open>An empty tree; and an empty tree in which the environment lets every directory be
  made but \<^verbatim>\<open>foo/bar\<close>.\<close>

definition empty_world :: world where
  "empty_world =
     \<lparr>nodes = Map.empty, resolve = normpath, mkdir_fault = (\<lambda>p. None), http = (\<lambda>u. Inl URLError),
      spawned = [], stdout = []\<rparr>"

definition leaf_denied_world :: world where
  "leaf_denied_world =
     \<lparr>nodes = Map.empty, resolve = normpath,
      mkdir_fault = (\<lambda>k. if k = ''foo/bar'' then Some (OSError EACCES) else None),
      http = (\<lambda>u. Inl URLError), spawned = [], stdout = []\<rparr>"

text \<open>A fresh checkout, and the state a first run leaves behind: the archive stored as a
  regular file beside the unpacked tree.\<close>

definition fresh_world :: world where
  "fresh_world =
     \<lparr>nodes = [''elm-native-package.json'' \<mapsto>
                  File (JsonText None (JObject [(''elm-lang/navigation'', JString ''2.0.0'')])),
               ''elm-package.json'' \<mapsto> File (JsonText (Some 4) app_config)],
      resolve = normpath, mkdir_fault = (\<lambda>p. None),
      http = (\<lambda>u. if u = ''https://github.com/elm-lang/navigation/archive/2.0.0.tar.gz''
                    then Inr nav_archive else Inl URLError),
      spawned = [], stdout = []\<rparr>"

definition fetched_world :: world where
  "fetched_world =
     \<lparr>nodes = [''elm-native-package.json'' \<mapsto>
                  File (JsonText None (JObject [(''elm-lang/navigation'', JString ''2.0.0'')])),
               ''elm-package.json'' \<mapsto> File (JsonText (Some 4) app_config),
               ''vendor'' \<mapsto> Dir, ''vendor/assets'' \<mapsto> Dir, ''vendor/assets/elm'' \<mapsto> Dir,
               ''vendor/assets/elm/elm-lang'' \<mapsto> Dir,
               ''vendor/assets/elm/elm-lang/navigation-2.0.0-tar.gz'' \<mapsto> File nav_archive],
      resolve = normpath, mkdir_fault = (\<lambda>p. None),
      http = (\<lambda>u. if u = ''https://github.com/elm-lang/navigation/archive/2.0.0.tar.gz''
                    then Inr nav_archive else Inl URLError),
      spawned = [], stdout = []\<rparr>"

definition vendored_world :: world where
  "vendored_world =
     \<lparr>nodes = [''elm-package.json'' \<mapsto> File (JsonText (Some 2) app_config),
               ''vendor'' \<mapsto> Dir, ''vendor/assets'' \<mapsto> Dir, ''vendor/assets/elm'' \<mapsto> Dir,
               ''vendor/assets/elm/elm-lang'' \<mapsto> Dir,
               ''vendor/assets/elm/elm-lang/navigation-2.0.0'' \<mapsto> Dir,
               ''vendor/assets/elm/elm-lang/navigation-2.0.0/elm-package.json'' \<mapsto>
                  File (JsonText (Some 4) nav_metadata)],
      resolve = normpath, mkdir_fault = (\<lambda>p. None), http = (\<lambda>u. Inl URLError), spawned = [], stdout = []\<rparr>"

text \<open>A vendor directory given as an absolute path, and a config file that is itself the
  metadata file of a vendored package.\<close>

definition absolute_vendor_world :: world where
  "absolute_vendor_world =
     \<lparr>nodes = [''app'' \<mapsto> Dir,
               ''app/elm-package.json'' \<mapsto> File (JsonText (Some 4) app_config),
               ''/srv'' \<mapsto> Dir, ''/srv/vendor'' \<mapsto> Dir, ''/srv/vendor/elm-lang'' \<mapsto> Dir,
               ''/srv/vendor/elm-lang/navigation-2.0.0'' \<mapsto> Dir,
               ''/srv/vendor/elm-lang/navigation-2.0.0/elm-package.json'' \<mapsto>
                  File (JsonText (Some 4) nav_metadata)],
      resolve = normpath, mkdir_fault = (\<lambda>p. None), http = (\<lambda>u. Inl URLError), spawned = [], stdout = []\<rparr>"

definition vendored_config_world :: world where
  "vendored_config_world =
     \<lparr>nodes = [''vendor'' \<mapsto> Dir, ''vendor/elm-lang'' \<mapsto> Dir,
               ''vendor/elm-lang/navigation-2.0.0'' \<mapsto> Dir,
               ''vendor/elm-lang/navigation-2.0.0/elm-package.json'' \<mapsto>
                  File (JsonText (Some 4) nav_metadata)],
      resolve = normpath, mkdir_fault = (\<lambda>p. None), http = (\<lambda>u. Inl URLError), spawned = [], stdout = []\<rparr>"

text \<open>A project with a second config file, for its tests, that names another repository.\<close>

definition tests_config :: json where
  "tests_config = JObject [(''version'', JString ''1.0.0''),
                           (''repository'', JString ''https://github.com/acme/tests.git''),
                           (''source-directories'', JArray [JString ''.'', JString ''../src'']),
                           (''dependencies'', JObject [])]"

definition two_config_world :: world where
  "two_config_world =
     \<lparr>nodes = [''elm-native-package.json'' \<mapsto>
                  File (JsonText None (JObject [(''elm-lang/navigation'', JString ''2.0.0'')])),
               ''elm-package.json'' \<mapsto> File (JsonText (Some 4) app_config),
               ''tests'' \<mapsto> Dir,
               ''tests/elm-package.json'' \<mapsto> File (JsonText (Some 4) tests_config),
               ''vendor'' \<mapsto> Dir, ''vendor/assets'' \<mapsto> Dir, ''vendor/assets/elm'' \<mapsto> Dir,
               ''vendor/assets/elm/elm-lang'' \<mapsto> Dir,
               ''vendor/assets/elm/elm-lang/navigation-2.0.0'' \<mapsto> Dir,
               ''vendor/assets/elm/elm-lang/navigation-2.0.0/elm-package.json'' \<mapsto>
                  File (JsonText (Some 4) nav_metadata)],
      resolve = normpath, mkdir_fault = (\<lambda>p. None),
      http = (\<lambda>u. if u = ''https://github.com/elm-lang/navigation/archive/2.0.0.tar.gz''
                    then Inr nav_archive else Inl URLError),
      spawned = [], stdout = []\<rparr>"

section \<open>Basic facts\<close>

lemma then_do_Inl [simp]: "then_do (Inl e) f = Inl e"
  by (simp add: then_do_def)

lemma then_do_Inr [simp]: "then_do (Inr x) f = f x"
  by (simp add: then_do_def)

lemma then_do_eq_Inr: "then_do m f = Inr y \<longleftrightarrow> (\<exists>x. m = Inr x \<and> f x = Inr y)"
  by (cases m) simp_all

lemma then_do_assoc: "then_do (then_do m f) g = then_do m (\<lambda>x. then_do (f x) g)"
  by (cases m) simp_all

lemma then_do_cong:
  "m = m' \<Longrightarrow> (\<And>x. m' = Inr x \<Longrightarrow> f x = f' x) \<Longrightarrow> then_do m f = then_do m' f'"
  by (cases m') simp_all

subsection \<open>Splitting a string\<close>

lemma py_split_not_Nil: "py_split sep s \<noteq> []"
  by (induction s) (auto split: list.splits)

lemma length_py_split: "length (py_split sep s) = Suc (count_list s sep)"
  by (induction s) (auto split: list.splits simp: py_split_not_Nil)

lemma py_split_no_sep: "sep \<notin> set s \<Longrightarrow> py_split sep s = [s]"
  by (induction s) auto

lemma py_split_one_sep:
  "sep \<notin> set a \<Longrightarrow> py_split sep (a @ sep # b) = a # py_split sep b"
  by (induction a) (auto split: list.splits simp: py_split_not_Nil)

lemma py_split_first:
  "py_split sep s = takeWhile (\<lambda>c. c \<noteq> sep) s #
     (if sep \<in> set s then py_split sep (tl (dropWhile (\<lambda>c. c \<noteq> sep) s)) else [])"
  by (induction s) (auto split: list.splits simp: py_split_not_Nil)

lemma py_split_two:
  assumes c: "count_list k sep = 1"
  shows "py_split sep k = [takeWhile (\<lambda>c. c \<noteq> sep) k, tl (dropWhile (\<lambda>c. c \<noteq> sep) k)]"
proof -
  let ?rest = "tl (dropWhile (\<lambda>c. c \<noteq> sep) k)"
  from c have "length (py_split sep k) = 2" by (simp add: length_py_split)
  then obtain a b where ab: "py_split sep k = [a, b]"
    by (cases "py_split sep k") (auto simp: length_Suc_conv)
  have mem: "sep \<in> set k" using c by (metis count_list_0_iff zero_neq_one)
  from py_split_first[of sep k] ab mem have a: "a = takeWhile (\<lambda>c. c \<noteq> sep) k"
    and r: "py_split sep ?rest = [b]" by auto
  have "length (py_split sep ?rest) = 1" using r by simp
  then have "count_list ?rest sep = 0" by (simp add: length_py_split)
  then have "sep \<notin> set ?rest" by (simp add: count_list_0_iff)
  then have "py_split sep ?rest = [?rest]" by (rule py_split_no_sep)
  with r a ab show ?thesis by simp
qed

lemma parse_json_Cons:
  "parse_json ((k, v) # raw) =
     (if count_list k CHR ''/'' = 1
      then then_do (parse_json raw) (\<lambda>result. Inr (descriptor (k, v) # result))
      else Inl ValueError)"
proof (cases "count_list k CHR ''/'' = 1")
  case True
  then show ?thesis by (simp add: py_split_two descriptor_def)
next
  case False
  then have "length (py_split CHR ''/'' k) \<noteq> 2" by (simp add: length_py_split)
  then have "case py_split CHR ''/'' k of [a, b] \<Rightarrow> False | _ \<Rightarrow> True"
    by (auto split: list.splits)
  with False show ?thesis by (auto split: list.splits)
qed

lemma namespace_from_repo_empty: "namespace_from_repo (JString []) = Inl ValueError"
  by (simp add: lstrip_def rstrip_def)

subsection \<open>Paths\<close>

lemma os_path_join_plain:
  "base \<noteq> [] \<Longrightarrow> last base \<noteq> CHR ''/'' \<Longrightarrow> \<not> is_absolute ns \<Longrightarrow>
     os_path_join base ns = base @ ''/'' @ ns"
  by (simp add: os_path_join_def)

lemma no_slash_not_absolute: "CHR ''/'' \<notin> set s \<Longrightarrow> \<not> is_absolute s"
  by (cases s) auto

lemma concat_replicate_Suc: "concat (replicate (Suc n) x) = concat (replicate n x) @ x"
  by (induction n) simp_all

lemma ascent_ends: "ascent c = [] \<or> last (ascent c) = CHR ''/''"
proof (cases "count_list c CHR ''/''")
  case 0
  then show ?thesis by (simp add: ascent_def)
next
  case (Suc n)
  then have "ascent c = concat (replicate n ''../'') @ ''../''"
    by (simp only: ascent_def concat_replicate_Suc)
  then show ?thesis by simp
qed

lemma join_ascent:
  assumes "\<not> is_absolute pdir" and "\<not> is_absolute d"
  shows "os_path_join (os_path_join (ascent c) pdir) d = ascent c @ os_path_join pdir d"
proof -
  have 1: "os_path_join (ascent c) pdir = ascent c @ pdir"
    using ascent_ends [of c] assms(1) by (auto simp: os_path_join_def)
  show ?thesis
  proof (cases "pdir = []")
    case True
    with 1 ascent_ends [of c] assms(2) show ?thesis by (auto simp: os_path_join_def)
  next
    case False
    with 1 assms(2) show ?thesis by (simp add: os_path_join_def)
  qed
qed

subsection \<open>Effects on the file system\<close>

lemma only_dirs_made_refl: "only_dirs_made w w"
  by (simp add: only_dirs_made_def)

lemma only_dirs_made_trans: "only_dirs_made a b \<Longrightarrow> only_dirs_made b c \<Longrightarrow> only_dirs_made a c"
  by (simp add: only_dirs_made_def)

lemma only_dirs_made_file_at: "only_dirs_made w w' \<Longrightarrow> file_at w' = file_at w"
  by (simp add: only_dirs_made_def file_at_def fun_eq_iff)

lemma mkdir_only: "mkdir w k = Inr w' \<Longrightarrow> only_dirs_made w w'"
  by (auto simp: mkdir_def only_dirs_made_def files_def fun_eq_iff
      split: option.splits if_splits node.splits)

lemma mkdir_then_only: "only_dirs_made w (fst (mkdir_then w k))"
  by (cases "mkdir w k") (simp_all add: mkdir_then_def mkdir_only only_dirs_made_refl)

lemma makedirs_at_only: "only_dirs_made w (fst (makedirs_at w k heads))"
proof (induction heads arbitrary: w k)
  case Nil
  show ?case by (simp add: mkdir_then_only)
next
  case (Cons head heads)
  obtain w1 err where r: "makedirs_at w head heads = (w1, err)" by (cases "makedirs_at w head heads")
  with Cons.IH [of w head] have 1: "only_dirs_made w w1" by simp
  have 2: "only_dirs_made w (fst (mkdir_then w1 k))"
    using 1 mkdir_then_only [of w1 k] by (rule only_dirs_made_trans)
  show ?case
    using r 1 2 by (auto simp: mkdir_then_only split: option.splits)
qed

lemma os_makedirs_only: "only_dirs_made w (fst (os_makedirs w p))"
  by (simp add: os_makedirs_def makedirs_at_only)

lemma format_vendor_dir_eq:
  "format_vendor_dir w base ns =
     Inr (fst (os_makedirs w (os_path_join base ns)), os_path_join base ns)"
  by (cases "os_makedirs w (os_path_join base ns)")
     (simp add: format_vendor_dir_def Let_def split: option.splits)

lemma format_vendor_dir_total:
  "\<exists>w'. format_vendor_dir w base ns = Inr (w', os_path_join base ns) \<and> only_dirs_made w w'"
  by (simp add: format_vendor_dir_eq os_makedirs_only)

lemma package_dir_total:
  "\<exists>w'. package_dir w vendor_dir p = Inr (w', package_path vendor_dir p) \<and> only_dirs_made w w'"
proof -
  obtain w' where "format_vendor_dir w vendor_dir (namespace p) =
      Inr (w', os_path_join vendor_dir (namespace p))" "only_dirs_made w w'"
    using format_vendor_dir_total by blast
  then show ?thesis by (simp add: package_dir_def package_path_def)
qed

lemma format_tar_file_total:
  "\<exists>w'. format_tar_file w vendor_dir p = Inr (w', package_path vendor_dir p @ ''-tar.gz'')
     \<and> only_dirs_made w w'"
proof -
  obtain w1 where 1: "format_vendor_dir w vendor_dir (namespace p) =
      Inr (w1, os_path_join vendor_dir (namespace p))" "only_dirs_made w w1"
    using format_vendor_dir_total by blast
  obtain w2 where 2: "package_dir w1 vendor_dir p = Inr (w2, package_path vendor_dir p)"
      "only_dirs_made w1 w2"
    using package_dir_total by blast
  from 1 2 only_dirs_made_trans show ?thesis by (auto simp: format_tar_file_def)
qed

lemma read_file_lookup: "read_file w p = lookup_file (files w) (resolve w p)"
  by (simp add: read_file_def lookup_file_def files_def split: option.splits node.splits)

lemma write_at_frame:
  "write_at w k c = Inr w' \<Longrightarrow>
     resolve w' = resolve w \<and> spawned w' = spawned w \<and> stdout w' = stdout w \<and> http w' = http w"
  by (auto simp: write_at_def split: option.splits node.splits if_splits)

lemma write_file_existing:
  assumes "files w (resolve w p) = Some old"
  shows "\<exists>w'. write_file w p c = Inr w' \<and> files w' = (files w)(resolve w p \<mapsto> c)
           \<and> resolve w' = resolve w \<and> spawned w' = spawned w \<and> stdout w' = stdout w
           \<and> http w' = http w"
proof -
  from assms obtain old' where "nodes w (resolve w p) = Some (File old')"
    by (auto simp: files_def split: option.splits node.splits)
  then show ?thesis
    by (auto simp: write_file_def write_at_def files_def fun_eq_iff)
qed

subsection \<open>The skip check and the fetch stage\<close>

lemma isdir_file_at: "file_at w p = Some c \<Longrightarrow> \<not> os_path_isdir w p"
  by (auto simp: file_at_def files_def os_path_isdir_def split: option.splits node.splits)

lemma filter_packages_keeps_files:
  "\<exists>w' kept. filter_packages w vendor_dir packages = Inr (w', kept) \<and> only_dirs_made w w' \<and>
     set kept \<subseteq> set packages \<and>
     (\<forall>x \<in> set packages. file_at w (package_path vendor_dir x @ ''-tar.gz'') \<noteq> None \<longrightarrow> x \<in> set kept)"
proof (induction packages arbitrary: w)
  case Nil
  show ?case by (simp add: only_dirs_made_refl)
next
  case (Cons x packages)
  obtain w1 where 1: "format_tar_file w vendor_dir x = Inr (w1, package_path vendor_dir x @ ''-tar.gz'')"
    "only_dirs_made w w1"
    using format_tar_file_total by blast
  then have f: "file_at w1 = file_at w" by (simp add: only_dirs_made_file_at)
  from Cons.IH [of w1] obtain w2 kept where
    2: "filter_packages w1 vendor_dir packages = Inr (w2, kept)" "only_dirs_made w1 w2"
       "set kept \<subseteq> set packages"
       "\<forall>y \<in> set packages. file_at w1 (package_path vendor_dir y @ ''-tar.gz'') \<noteq> None \<longrightarrow> y \<in> set kept"
    by blast
  have "\<not> os_path_isdir w1 (package_path vendor_dir x @ ''-tar.gz'')"
    if "file_at w (package_path vendor_dir x @ ''-tar.gz'') \<noteq> None"
    using that f isdir_file_at by fastforce
  moreover have "only_dirs_made w w2" using 1(2) 2(2) by (rule only_dirs_made_trans)
  ultimately show ?case using 1 2 f by auto
qed

lemma extractall_spawned: "extractall w vendor members = Inr w' \<Longrightarrow> spawned w' = spawned w"
proof (induction members arbitrary: w)
  case Nil
  then show ?case by simp
next
  case (Cons m members)
  obtain member c where m: "m = (member, c)" by (cases m)
  from Cons.prems obtain w1 where
    1: "write_at (make_parents w (resolve w (os_path_join vendor member)))
          (resolve w (os_path_join vendor member)) c = Inr w1"
    and 2: "extractall w1 vendor members = Inr w'"
    unfolding m by (auto simp: then_do_eq_Inr)
  from write_at_frame [OF 1] have "spawned w1 = spawned w" by (simp add: make_parents_def)
  with Cons.IH [OF 2] show ?case by simp
qed

lemma fetch_packages_spawned: "fetch_packages w vendor_dir packages = Inr w' \<Longrightarrow> spawned w' = spawned w"
proof (induction packages arbitrary: w)
  case Nil
  then show ?case by simp
next
  case (Cons p packages)
  obtain w1 where 1: "format_tar_file w vendor_dir p = Inr (w1, package_path vendor_dir p @ ''-tar.gz'')"
    "only_dirs_made w w1"
    using format_tar_file_total by blast
  obtain w2 where 2: "format_vendor_dir w1 vendor_dir (namespace p) =
      Inr (w2, os_path_join vendor_dir (namespace p))" "only_dirs_made w1 w2"
    using format_vendor_dir_total by blast
  from Cons.prems 1 2 obtain w3 tar_file w4 members w5 where
    3: "urlopen (print_line w2 (''Downloading '' @ namespace p @ ''/'' @ name p @ '' '' @ version p))
          (format_url p) = Inr (w3, tar_file)"
    and 4: "write_file w3 (package_path vendor_dir p @ ''-tar.gz'') tar_file = Inr w4"
    and 5: "extractall w4 (os_path_join vendor_dir (namespace p)) members = Inr w5"
    and 6: "fetch_packages w5 vendor_dir packages = Inr w'"
    by (auto simp: then_do_eq_Inr)
  from 3 have "spawned w3 = spawned w2"
    by (auto simp: urlopen_def print_line_def then_do_eq_Inr)
  moreover from 4 have "spawned w4 = spawned w3"
    using write_at_frame by (auto simp: write_file_def)
  moreover note extractall_spawned [OF 5] Cons.IH [OF 6]
  ultimately show ?case using 1(2) 2(2) by (simp add: only_dirs_made_def)
qed

subsection \<open>Documents\<close>

lemma py_getitem_Inr:
  "py_getitem d k = Inr v \<longleftrightarrow> (\<exists>kvs. d = JObject kvs \<and> map_of kvs k = Some v)"
  by (cases d) (auto split: option.splits)

lemma py_append_Inr: "py_append dirs r = Inr dirs' \<longleftrightarrow> (\<exists>xs. dirs = JArray xs \<and> dirs' = JArray (xs @ [JString r]))"
  by (cases dirs) auto

lemma json_load_Inr: "json_load c = Inr d \<longleftrightarrow> (\<exists>k. c = JsonText k d)"
  by (cases c) auto

lemma lookup_file_Inr: "lookup_file F p = Inr c \<longleftrightarrow> F p = Some c"
  by (auto simp: lookup_file_def split: option.splits)

lemma add_source_directory_cases:
  assumes "add_source_directory data r = Inr data'"
  shows "(data' = data \<and> covers data r) \<or>
         (\<exists>kvs xs. data = JObject kvs \<and> map_of kvs ''source-directories'' = Some (JArray xs) \<and>
            JString r \<notin> set xs \<and>
            data' = JObject (AList.update ''source-directories'' (JArray (xs @ [JString r])) kvs))"
proof -
  from assms obtain dirs present where
    g: "py_getitem data ''source-directories'' = Inr dirs" and
    i: "py_in r dirs = Inr present" and
    rest: "(if present then Inr data
            else then_do (py_append dirs r) (\<lambda>dirs'. Inr (set_item data ''source-directories'' dirs'))) = Inr data'"
    unfolding add_source_directory_def then_do_eq_Inr by blast
  show ?thesis
  proof (cases present)
    case True
    with g i rest show ?thesis by (auto simp: covers_def)
  next
    case False
    with rest obtain dirs' where a: "py_append dirs r = Inr dirs'"
      and d': "data' = set_item data ''source-directories'' dirs'"
      by (auto simp: then_do_eq_Inr)
    from a obtain xs where xs: "dirs = JArray xs" "dirs' = JArray (xs @ [JString r])"
      by (auto simp: py_append_Inr)
    from g obtain kvs where kvs: "data = JObject kvs" "map_of kvs ''source-directories'' = Some dirs"
      by (auto simp: py_getitem_Inr)
    from i False xs have "JString r \<notin> set xs" by simp
    with xs kvs d' show ?thesis by simp
  qed
qed

lemma covers_add: "covers data r \<Longrightarrow> add_source_directory data r = Inr data"
  by (auto simp: covers_def add_source_directory_def)

lemma grows_refl: "grows d d"
  by (simp add: grows_def)

lemma grows_trans:
  assumes "grows a b" and "grows b c"
  shows "grows a c"
proof (cases "b = a \<or> c = b")
  case True
  with assms show ?thesis by auto
next
  case False
  with assms(1) obtain kvs xs new where
    1: "a = JObject kvs" "map_of kvs ''source-directories'' = Some (JArray xs)"
       "b = JObject (AList.update ''source-directories'' (JArray (xs @ new)) kvs)"
       "distinct new" "set new \<inter> set xs = {}"
    unfolding grows_def by blast
  from False assms(2) obtain kvs' ys new' where
    2: "b = JObject kvs'" "map_of kvs' ''source-directories'' = Some (JArray ys)"
       "c = JObject (AList.update ''source-directories'' (JArray (ys @ new')) kvs')"
       "distinct new'" "set new' \<inter> set ys = {}"
    unfolding grows_def by blast
  from 1 2 have kvs': "kvs' = AList.update ''source-directories'' (JArray (xs @ new)) kvs" by simp
  with 2 have ys: "ys = xs @ new" by (simp add: update_conv')
  have "c = JObject (AList.update ''source-directories'' (JArray (xs @ (new @ new'))) kvs)"
    using 2(3) kvs' ys by simp
  moreover have "distinct (new @ new')" "set (new @ new') \<inter> set xs = {}"
    using 1 2 ys by auto
  ultimately show ?thesis using 1 unfolding grows_def by blast
qed

lemma add_source_directory_grows:
  assumes "add_source_directory data r = Inr data'"
  shows "grows data data'"
proof -
  from add_source_directory_cases [OF assms] show ?thesis
  proof
    assume "data' = data \<and> covers data r"
    then show ?thesis by (simp add: grows_def)
  next
    assume "\<exists>kvs xs. data = JObject kvs \<and> map_of kvs ''source-directories'' = Some (JArray xs) \<and>
            JString r \<notin> set xs \<and>
            data' = JObject (AList.update ''source-directories'' (JArray (xs @ [JString r])) kvs)"
    then obtain kvs xs where "data = JObject kvs" "map_of kvs ''source-directories'' = Some (JArray xs)"
      "JString r \<notin> set xs"
      "data' = JObject (AList.update ''source-directories'' (JArray (xs @ [JString r])) kvs)"
      by blast
    then have "\<exists>kvs xs new. data = JObject kvs \<and> map_of kvs ''source-directories'' = Some (JArray xs) \<and>
         data' = JObject (AList.update ''source-directories'' (JArray (xs @ new)) kvs) \<and>
         distinct new \<and> set new \<inter> set xs = {}"
      by (intro exI [of _ kvs] exI [of _ xs] exI [of _ "[JString r]"]) simp
    then show ?thesis by (simp add: grows_def)
  qed
qed

lemma add_source_directory_covers:
  assumes "add_source_directory data r = Inr data'"
  shows "covers data' r"
  using add_source_directory_cases [OF assms]
  by (auto simp: covers_def update_conv')

lemma covers_grows:
  assumes "covers d r" and "grows d d'"
  shows "covers d' r"
  using assms by (auto simp: covers_def grows_def py_getitem_Inr update_conv')

lemma grows_getitem_other:
  "grows d d' \<Longrightarrow> k \<noteq> ''source-directories'' \<Longrightarrow> py_getitem d' k = py_getitem d k"
  by (auto simp: grows_def update_conv')

lemma grows_getitem_source_directories:
  "grows d d' \<Longrightarrow> py_getitem d ''source-directories'' = Inr s \<Longrightarrow>
     \<exists>s'. py_getitem d' ''source-directories'' = Inr s'"
  by (auto simp: grows_def update_conv')

lemma update_nth_other:
  "i < length al \<Longrightarrow> fst (al ! i) \<noteq> k \<Longrightarrow> AList.update k v al ! i = al ! i"
proof (induction al arbitrary: i)
  case Nil
  then show ?case by simp
next
  case (Cons a al)
  then show ?case by (cases i) (auto split: prod.splits)
qed

lemma grows_elementwise:
  assumes "grows d d'" and "py_getitem d ''source-directories'' = Inr s"
  shows "only_source_directories_extended d d'"
proof -
  from assms(2) obtain kvs where kvs: "d = JObject kvs" "map_of kvs ''source-directories'' = Some s"
    by (auto simp: py_getitem_Inr)
  then have key: "''source-directories'' \<in> set (map fst kvs)"
    by (metis map_of_eq_None_iff option.distinct(1) set_map)
  show ?thesis
  proof (cases "d' = d")
    case True
    with kvs show ?thesis
      unfolding only_source_directories_extended_def
      by (intro exI [of _ kvs]) (auto split: json.splits)
  next
    case False
    with assms(1) kvs obtain xs new where
      g: "s = JArray xs" "d' = JObject (AList.update ''source-directories'' (JArray (xs @ new)) kvs)"
         "distinct new" "set new \<inter> set xs = {}"
      unfolding grows_def by auto
    let ?kvs' = "AList.update ''source-directories'' (JArray (xs @ new)) kvs"
    have "map fst ?kvs' = map fst kvs" using key by (simp add: update_keys)
    moreover have "\<forall>i < length kvs. fst (kvs ! i) \<noteq> ''source-directories'' \<longrightarrow> ?kvs' ! i = kvs ! i"
      by (simp add: update_nth_other)
    moreover have "\<forall>k. k \<noteq> ''source-directories'' \<longrightarrow> map_of ?kvs' k = map_of kvs k"
      by (simp add: update_conv')
    moreover have "map_of ?kvs' ''source-directories'' = Some (JArray (xs @ new))"
      by (simp add: update_conv')
    ultimately show ?thesis
      unfolding only_source_directories_extended_def using kvs g
      by (intro exI [of _ kvs] exI [of _ ?kvs']) auto
  qed
qed

subsection \<open>The inner loops over a document\<close>

lemma add_dirs_grows: "add_dirs path pdir data dirs = Inr data' \<Longrightarrow> grows data data'"
proof (induction dirs arbitrary: data)
  case Nil
  then show ?case by (simp add: grows_refl)
next
  case (Cons d dirs)
  from Cons.prems obtain r d1 where "join_dir_name path pdir d = Inr r"
    "add_source_directory data r = Inr d1" "add_dirs path pdir d1 dirs = Inr data'"
    by (auto simp: then_do_eq_Inr)
  then show ?case using Cons.IH add_source_directory_grows grows_trans by blast
qed

lemma add_dirs_covers:
  "add_dirs path pdir data dirs = Inr data' \<Longrightarrow>
     \<forall>d \<in> set dirs. \<exists>r. join_dir_name path pdir d = Inr r \<and> covers data' r"
proof (induction dirs arbitrary: data)
  case Nil
  then show ?case by simp
next
  case (Cons d dirs)
  from Cons.prems obtain r d1 where 1: "join_dir_name path pdir d = Inr r"
    "add_source_directory data r = Inr d1" "add_dirs path pdir d1 dirs = Inr data'"
    by (auto simp: then_do_eq_Inr)
  have "covers data' r"
    using 1 add_source_directory_covers add_dirs_grows covers_grows by blast
  with 1 Cons.IH show ?case by auto
qed

lemma add_dirs_covered:
  "\<forall>d \<in> set dirs. \<exists>r. join_dir_name path pdir d = Inr r \<and> covers data r \<Longrightarrow>
     add_dirs path pdir data dirs = Inr data"
  by (induction dirs) (auto simp: covers_add)

lemma add_dirs_strings:
  "add_dirs path pdir data (map JString ds) =
     add_source_directories data (map (\<lambda>d. os_path_join (os_path_join path pdir) d) ds)"
  by (induction ds arbitrary: data) (simp_all add: then_do_def split: sum.splits)

lemma merge_packages_grows:
  "merge_packages R F vendor_dir path data packages = Inr data' \<Longrightarrow> grows data data'"
proof (induction packages arbitrary: data)
  case Nil
  then show ?case by (simp add: grows_refl)
next
  case (Cons p packages)
  from Cons.prems obtain cur dirs d1 where
    "add_dirs path (package_path vendor_dir p) data dirs = Inr d1"
    "merge_packages R F vendor_dir path d1 packages = Inr data'"
    by (auto simp: then_do_eq_Inr)
  then show ?case using Cons.IH add_dirs_grows grows_trans by blast
qed

lemma package_covered_grows:
  "package_covered R F vendor_dir path d p \<Longrightarrow> grows d d' \<Longrightarrow> package_covered R F vendor_dir path d' p"
  unfolding package_covered_def by (meson covers_grows)

lemma merge_packages_saturated:
  "merge_packages R F vendor_dir path data packages = Inr data' \<Longrightarrow>
     saturated R F vendor_dir path packages data'"
proof (induction packages arbitrary: data)
  case Nil
  then show ?case by (simp add: saturated_def)
next
  case (Cons p packages)
  from Cons.prems obtain cur dirs d1 where 1:
    "source_dirs_of R F vendor_dir p = Inr cur" "py_iter cur = Inr dirs"
    "add_dirs path (package_path vendor_dir p) data dirs = Inr d1"
    "merge_packages R F vendor_dir path d1 packages = Inr data'"
    by (auto simp: then_do_eq_Inr)
  from add_dirs_covers [OF 1(3)] 1(1,2) have "package_covered R F vendor_dir path d1 p"
    by (simp add: package_covered_def)
  with merge_packages_grows [OF 1(4)] have "package_covered R F vendor_dir path data' p"
    by (rule package_covered_grows [rotated])
  with Cons.IH [OF 1(4)] show ?case by (simp add: saturated_def)
qed

lemma saturated_merge:
  "saturated R F vendor_dir path packages data \<Longrightarrow>
     merge_packages R F vendor_dir path data packages = Inr data"
proof (induction packages)
  case Nil
  then show ?case by simp
next
  case (Cons p packages)
  from Cons.prems have p: "package_covered R F vendor_dir path data p"
    and rest: "saturated R F vendor_dir path packages data"
    by (simp_all add: saturated_def)
  from p obtain cur dirs where "source_dirs_of R F vendor_dir p = Inr cur" "py_iter cur = Inr dirs"
    "\<forall>d \<in> set dirs. \<exists>r. join_dir_name path (package_path vendor_dir p) d = Inr r \<and> covers data r"
    by (auto simp: package_covered_def)
  then show ?case using Cons.IH [OF rest] by (simp add: add_dirs_covered)
qed

lemma saturated_cong:
  "\<forall>p \<in> set packages. F' (R (elm_package_filename vendor_dir p)) = F (R (elm_package_filename vendor_dir p)) \<Longrightarrow>
     saturated R F' vendor_dir path packages d = saturated R F vendor_dir path packages d"
  by (simp add: saturated_def package_covered_def source_dirs_of_def lookup_file_def)

lemma saturated_upd:
  "\<forall>p \<in> set packages. R (elm_package_filename vendor_dir p) \<noteq> k \<Longrightarrow>
     saturated R (F(k \<mapsto> x)) vendor_dir path packages d = saturated R F vendor_dir path packages d"
  by (rule saturated_cong) auto

lemma saturated_grows:
  "saturated R F vendor_dir path packages d \<Longrightarrow> grows d d' \<Longrightarrow>
     saturated R F vendor_dir path packages d'"
  unfolding saturated_def using package_covered_grows by blast

lemma join_dir_name_Inr:
  "join_dir_name path pdir d = Inr r \<Longrightarrow> d = JString (string_of d)"
  by (cases d) simp_all

lemma add_dirs_Inr_strings:
  "add_dirs path pdir data dirs = Inr data' \<Longrightarrow> dirs = map JString (map string_of dirs)"
proof (induction dirs arbitrary: data)
  case Nil
  then show ?case by simp
next
  case (Cons d dirs)
  from Cons.prems obtain r d1 where 1: "join_dir_name path pdir d = Inr r"
    "add_dirs path pdir d1 dirs = Inr data'"
    by (auto simp: then_do_eq_Inr)
  from join_dir_name_Inr [OF 1(1)] Cons.IH [OF 1(2)] show ?case by simp
qed

lemma add_source_directories_append:
  "add_source_directories data (xs @ ys) =
     then_do (add_source_directories data xs) (\<lambda>d. add_source_directories d ys)"
  by (induction xs arbitrary: data) (simp_all add: then_do_assoc cong: then_do_cong)

lemma merge_packages_references:
  "merge_packages R F vendor_dir path data packages = Inr data' \<Longrightarrow>
     add_source_directories data
       (concat (map (\<lambda>p. map (\<lambda>d. os_path_join (os_path_join path (package_path vendor_dir p)) d)
                            (declared R F vendor_dir p)) packages)) = Inr data'"
proof (induction packages arbitrary: data)
  case Nil
  then show ?case by simp
next
  case (Cons p packages)
  from Cons.prems obtain cur dirs d1 where 1:
    "source_dirs_of R F vendor_dir p = Inr cur" "py_iter cur = Inr dirs"
    "add_dirs path (package_path vendor_dir p) data dirs = Inr d1"
    "merge_packages R F vendor_dir path d1 packages = Inr data'"
    by (auto simp: then_do_eq_Inr)
  from 1(1,2) have dec: "declared R F vendor_dir p = map string_of dirs"
    by (simp add: declared_def)
  from add_dirs_Inr_strings [OF 1(3)] 1(3)
  have "add_dirs path (package_path vendor_dir p) data (map JString (map string_of dirs)) = Inr d1"
    by simp
  then have "add_source_directories data
      (map (\<lambda>d. os_path_join (os_path_join path (package_path vendor_dir p)) d) (map string_of dirs))
      = Inr d1"
    by (simp only: add_dirs_strings)
  with Cons.IH [OF 1(4)] dec show ?case
    by (simp add: add_source_directories_append)
qed

subsection \<open>The config loop over the files\<close>

lemma rewrite_configs_step:
  assumes "rewrite_configs R F vendor_dir packages repository (config # configs) = Inr (F', r')"
  shows "\<exists>k data rc s data'.
           F (R config) = Some (JsonText k data) \<and>
           py_getitem data ''repository'' = Inr rc \<and>
           py_getitem data ''source-directories'' = Inr s \<and>
           merge_packages R F vendor_dir (ascent config) data packages = Inr data' \<and>
           rewrite_configs R (F(R config \<mapsto> JsonText (Some 4) data')) vendor_dir packages rc configs
             = Inr (F', r')"
  using assms by (auto simp: then_do_eq_Inr lookup_file_Inr json_load_Inr)

lemma rewrite_configs_frame:
  "rewrite_configs R F vendor_dir packages repository configs = Inr (F', r') \<Longrightarrow>
     (\<forall>k. k \<notin> R ` set configs \<longrightarrow> F' k = F k) \<and>
     (\<forall>c \<in> set configs. \<exists>k d d' s.
        F (R c) = Some (JsonText k d) \<and> F' (R c) = Some (JsonText (Some 4) d') \<and>
        py_getitem d ''source-directories'' = Inr s \<and> grows d d')"
proof (induction configs arbitrary: F repository)
  case Nil
  then show ?case by simp
next
  case (Cons config configs)
  from rewrite_configs_step [OF Cons.prems] obtain k data rc s data' where
    1: "F (R config) = Some (JsonText k data)"
       "py_getitem data ''source-directories'' = Inr s"
       "merge_packages R F vendor_dir (ascent config) data packages = Inr data'"
       "rewrite_configs R (F(R config \<mapsto> JsonText (Some 4) data')) vendor_dir packages rc configs
          = Inr (F', r')"
    by blast
  let ?F1 = "F(R config \<mapsto> JsonText (Some 4) data')"
  note g = merge_packages_grows [OF 1(3)]
  from Cons.IH [OF 1(4)] have
    out: "\<forall>k. k \<notin> R ` set configs \<longrightarrow> F' k = ?F1 k" and
    ins: "\<forall>c \<in> set configs. \<exists>k d d' s.
        ?F1 (R c) = Some (JsonText k d) \<and> F' (R c) = Some (JsonText (Some 4) d') \<and>
        py_getitem d ''source-directories'' = Inr s \<and> grows d d'"
    by blast+
  have here: "\<exists>d'. F' (R config) = Some (JsonText (Some 4) d') \<and> grows data d'"
  proof (cases "R config \<in> R ` set configs")
    case True
    then obtain c' where "c' \<in> set configs" "R c' = R config" by auto
    with ins obtain d' where "F' (R config) = Some (JsonText (Some 4) d')" "grows data' d'"
      by fastforce
    with g show ?thesis using grows_trans by blast
  next
    case False
    with out have "F' (R config) = Some (JsonText (Some 4) data')" by simp
    with g show ?thesis by blast
  qed
  have "\<exists>k d d' s. F (R c) = Some (JsonText k d) \<and> F' (R c) = Some (JsonText (Some 4) d') \<and>
          py_getitem d ''source-directories'' = Inr s \<and> grows d d'"
    if c: "c \<in> set (config # configs)" for c
  proof (cases "R c = R config")
    case True
    with here 1 show ?thesis by auto
  next
    case False
    with c have "c \<in> set configs" by auto
    with ins False show ?thesis by auto
  qed
  moreover have "\<forall>k. k \<notin> R ` set (config # configs) \<longrightarrow> F' k = F k"
    using out by auto
  ultimately show ?case by blast
qed

lemma rewrite_configs_last_repository:
  "rewrite_configs R F vendor_dir packages repository configs = Inr (F', r') \<Longrightarrow> configs \<noteq> [] \<Longrightarrow>
     \<exists>d. F' (R (last configs)) = Some (JsonText (Some 4) d) \<and> py_getitem d ''repository'' = Inr r'"
proof (induction configs arbitrary: F repository)
  case Nil
  then show ?case by simp
next
  case (Cons config configs)
  from rewrite_configs_step [OF Cons.prems(1)] obtain k data rc s data' where
    1: "F (R config) = Some (JsonText k data)"
       "py_getitem data ''repository'' = Inr rc"
       "merge_packages R F vendor_dir (ascent config) data packages = Inr data'"
       "rewrite_configs R (F(R config \<mapsto> JsonText (Some 4) data')) vendor_dir packages rc configs
          = Inr (F', r')"
    by blast
  show ?case
  proof (cases "configs = []")
    case True
    with 1 have "F' = F(R config \<mapsto> JsonText (Some 4) data')" "r' = rc" by simp_all
    moreover have "py_getitem data' ''repository'' = py_getitem data ''repository''"
      using merge_packages_grows [OF 1(3)] by (simp add: grows_getitem_other)
    ultimately show ?thesis using 1 True by simp
  next
    case False
    with Cons.IH [OF 1(4)] show ?thesis by simp
  qed
qed

lemma rewrite_configs_first_repository:
  assumes "rewrite_configs R F vendor_dir packages repository configs = Inr (F', r')"
    and "configs \<noteq> []"
  shows "\<exists>k d. F (R (last configs)) = Some (JsonText k d) \<and> py_getitem d ''repository'' = Inr r'"
proof -
  from rewrite_configs_last_repository [OF assms] obtain d' where
    d': "F' (R (last configs)) = Some (JsonText (Some 4) d')" "py_getitem d' ''repository'' = Inr r'"
    by blast
  from assms(2) have "last configs \<in> set configs" by simp
  with rewrite_configs_frame [OF assms(1)] d' obtain k d where
    "F (R (last configs)) = Some (JsonText k d)" "grows d d'"
    by fastforce
  with d' show ?thesis by (auto simp: grows_getitem_other)
qed

lemma settled_step:
  assumes m: "merge_packages R F vendor_dir (ascent config) data packages = Inr data'"
    and r: "py_getitem data ''repository'' = Inr rc"
    and s: "py_getitem data ''source-directories'' = Inr sd"
    and na: "\<forall>p \<in> set packages. R (elm_package_filename vendor_dir p) \<noteq> R config"
  shows "settled R (F(R config \<mapsto> JsonText (Some 4) data')) vendor_dir packages config"
proof -
  let ?F1 = "F(R config \<mapsto> JsonText (Some 4) data')"
  note g = merge_packages_grows [OF m]
  have "saturated R ?F1 vendor_dir (ascent config) packages data'"
    using merge_packages_saturated [OF m] na by (simp add: saturated_upd)
  moreover have "py_getitem data' ''repository'' = Inr rc"
    using g r by (simp add: grows_getitem_other)
  moreover obtain sd' where "py_getitem data' ''source-directories'' = Inr sd'"
    using grows_getitem_source_directories [OF g s] by blast
  ultimately show ?thesis unfolding settled_def by auto
qed

lemma settled_keep:
  assumes st: "settled R F vendor_dir packages c"
    and f: "F (R config) = Some (JsonText k data)"
    and m: "merge_packages R F vendor_dir (ascent config) data packages = Inr data'"
    and na: "\<forall>p \<in> set packages. R (elm_package_filename vendor_dir p) \<noteq> R config"
  shows "settled R (F(R config \<mapsto> JsonText (Some 4) data')) vendor_dir packages c"
proof (cases "R c = R config")
  case True
  note g = merge_packages_grows [OF m]
  from st True f obtain r s where
    1: "py_getitem data ''repository'' = Inr r" "py_getitem data ''source-directories'' = Inr s"
       "saturated R F vendor_dir (ascent c) packages data"
    by (auto simp: settled_def)
  have "saturated R (F(R config \<mapsto> JsonText (Some 4) data')) vendor_dir (ascent c) packages data'"
    using saturated_grows [OF 1(3) g] na by (simp add: saturated_upd)
  moreover have "py_getitem data' ''repository'' = Inr r"
    using g 1(1) by (simp add: grows_getitem_other)
  moreover obtain s' where "py_getitem data' ''source-directories'' = Inr s'"
    using grows_getitem_source_directories [OF g 1(2)] by blast
  ultimately show ?thesis using True unfolding settled_def by auto
next
  case False
  with st na show ?thesis unfolding settled_def by (auto simp: saturated_upd)
qed

lemma rewrite_configs_settles:
  "rewrite_configs R F vendor_dir packages repository configs = Inr (F', r') \<Longrightarrow>
   \<forall>c \<in> set configs. \<forall>p \<in> set packages. R (elm_package_filename vendor_dir p) \<noteq> R c \<Longrightarrow>
     (\<forall>c \<in> set configs. settled R F' vendor_dir packages c) \<and>
     (\<forall>c. settled R F vendor_dir packages c \<longrightarrow> settled R F' vendor_dir packages c)"
proof (induction configs arbitrary: F repository)
  case Nil
  then show ?case by simp
next
  case (Cons config configs)
  from rewrite_configs_step [OF Cons.prems(1)] obtain k data rc s data' where
    1: "F (R config) = Some (JsonText k data)"
       "py_getitem data ''repository'' = Inr rc"
       "py_getitem data ''source-directories'' = Inr s"
       "merge_packages R F vendor_dir (ascent config) data packages = Inr data'"
       "rewrite_configs R (F(R config \<mapsto> JsonText (Some 4) data')) vendor_dir packages rc configs
          = Inr (F', r')"
    by blast
  let ?F1 = "F(R config \<mapsto> JsonText (Some 4) data')"
  from Cons.prems(2) have na: "\<forall>p \<in> set packages. R (elm_package_filename vendor_dir p) \<noteq> R config"
    and na': "\<forall>c \<in> set configs. \<forall>p \<in> set packages. R (elm_package_filename vendor_dir p) \<noteq> R c"
    by simp_all
  from Cons.IH [OF 1(5) na'] have
    a: "\<forall>c \<in> set configs. settled R F' vendor_dir packages c" and
    b: "\<forall>c. settled R ?F1 vendor_dir packages c \<longrightarrow> settled R F' vendor_dir packages c"
    by blast+
  have here: "settled R ?F1 vendor_dir packages config"
    using settled_step [OF 1(4) 1(2) 1(3) na] .
  have keep: "settled R ?F1 vendor_dir packages c" if "settled R F vendor_dir packages c" for c
    using settled_keep [OF that 1(1) 1(4) na] .
  from a b here keep show ?case by auto
qed

lemma settled_rewrite:
  "\<forall>c \<in> set configs. settled R F vendor_dir packages c \<Longrightarrow>
     \<exists>r'. rewrite_configs R F vendor_dir packages repository configs = Inr (F, r')"
proof (induction configs arbitrary: repository)
  case Nil
  then show ?case by simp
next
  case (Cons config configs)
  from Cons.prems obtain d r s where
    1: "F (R config) = Some (JsonText (Some 4) d)" "py_getitem d ''repository'' = Inr r"
       "py_getitem d ''source-directories'' = Inr s"
       "saturated R F vendor_dir (ascent config) packages d"
    by (auto simp: settled_def)
  have same: "F(R config \<mapsto> JsonText (Some 4) d) = F"
    using 1(1) by (simp add: map_upd_triv)
  from Cons.IH [of r] Cons.prems obtain r' where
    "rewrite_configs R F vendor_dir packages r configs = Inr (F, r')" by auto
  with 1 same show ?case
    by (simp add: lookup_file_def saturated_merge)
qed

lemma rewrite_configs_idempotent:
  assumes run: "rewrite_configs R F vendor_dir packages repository configs = Inr (F', r')"
    and na: "\<forall>c \<in> set configs. \<forall>p \<in> set packages. R (elm_package_filename vendor_dir p) \<noteq> R c"
  shows "rewrite_configs R F' vendor_dir packages repository configs = Inr (F', r')"
proof -
  from rewrite_configs_settles [OF run na]
  have "\<forall>c \<in> set configs. settled R F' vendor_dir packages c" by blast
  from settled_rewrite [OF this] obtain r2 where
    2: "rewrite_configs R F' vendor_dir packages repository configs = Inr (F', r2)" by blast
  have "r2 = r'"
  proof (cases "configs = []")
    case True
    with run 2 show ?thesis by simp
  next
    case False
    from rewrite_configs_last_repository [OF run False]
      rewrite_configs_first_repository [OF 2 False]
    show ?thesis by auto
  qed
  with 2 show ?thesis by simp
qed

subsection \<open>The loops of the updater and their effect on the files\<close>

lemma get_source_dirs_files:
  "\<exists>w'. only_dirs_made w w' \<and>
     get_source_dirs w vendor_dir p =
       then_do (source_dirs_of (resolve w) (files w) vendor_dir p) (\<lambda>dirs. Inr (w', dirs))"
proof -
  obtain w1 where 1: "package_dir w vendor_dir p = Inr (w1, package_path vendor_dir p)"
    "only_dirs_made w w1"
    using package_dir_total by blast
  from 1(2) have 2: "files w1 = files w" "resolve w1 = resolve w"
    by (simp_all add: only_dirs_made_def)
  have "get_source_dirs w vendor_dir p =
       then_do (source_dirs_of (resolve w) (files w) vendor_dir p) (\<lambda>dirs. Inr (w1, dirs))"
    using 1(1) 2 by (simp add: get_source_dirs_def source_dirs_of_def read_file_lookup
        elm_package_filename_def then_do_def split: sum.splits)
  with 1 show ?thesis by blast
qed

lemma update_dirs_files:
  "\<exists>w'. only_dirs_made w w' \<and>
     update_dirs w vendor_dir path p data dirs =
       then_do (add_dirs path (package_path vendor_dir p) data dirs) (\<lambda>data'. Inr (w', data'))"
proof (induction dirs arbitrary: w data)
  case Nil
  show ?case by (simp add: only_dirs_made_refl)
next
  case (Cons dir_name rest)
  obtain w1 where 1: "package_dir w vendor_dir p = Inr (w1, package_path vendor_dir p)"
    "only_dirs_made w w1"
    using package_dir_total by blast
  show ?case
  proof (cases "join_dir_name path (package_path vendor_dir p) dir_name")
    case (Inl e)
    with 1 show ?thesis by auto
  next
    case (Inr relative_path)
    note j = this
    show ?thesis
    proof (cases "add_source_directory data relative_path")
      case (Inl e)
      with 1 j show ?thesis by auto
    next
      case (Inr data')
      from Cons.IH [of w1 data'] obtain w' where
        2: "only_dirs_made w1 w'"
        "update_dirs w1 vendor_dir path p data' rest =
           then_do (add_dirs path (package_path vendor_dir p) data' rest) (\<lambda>d. Inr (w', d))"
        by blast
      from 1(2) 2(1) have "only_dirs_made w w'" by (rule only_dirs_made_trans)
      with 1 2 j Inr show ?thesis by auto
    qed
  qed
qed

lemma update_packages_files:
  "\<exists>w'. only_dirs_made w w' \<and>
     update_packages w vendor_dir path data packages =
       then_do (merge_packages (resolve w) (files w) vendor_dir path data packages)
         (\<lambda>data'. Inr (w', data'))"
proof (induction packages arbitrary: w data)
  case Nil
  show ?case by (simp add: only_dirs_made_refl)
next
  case (Cons p packages)
  obtain w1 where 1: "only_dirs_made w w1"
    "get_source_dirs w vendor_dir p =
       then_do (source_dirs_of (resolve w) (files w) vendor_dir p) (\<lambda>dirs. Inr (w1, dirs))"
    using get_source_dirs_files by blast
  show ?case
  proof (cases "source_dirs_of (resolve w) (files w) vendor_dir p")
    case (Inl e)
    with 1 show ?thesis by auto
  next
    case (Inr current)
    note s = this
    show ?thesis
    proof (cases "py_iter current")
      case (Inl e)
      with 1 s show ?thesis by auto
    next
      case (Inr dirs)
      note i = this
      obtain w2 where 2: "only_dirs_made w1 w2"
        "update_dirs w1 vendor_dir path p data dirs =
           then_do (add_dirs path (package_path vendor_dir p) data dirs) (\<lambda>d. Inr (w2, d))"
        using update_dirs_files by blast
      from 1(1) 2(1) have 12: "only_dirs_made w w2" by (rule only_dirs_made_trans)
      show ?thesis
      proof (cases "add_dirs path (package_path vendor_dir p) data dirs")
        case (Inl e)
        with 1 2 s i show ?thesis by auto
      next
        case (Inr data')
        from Cons.IH [of w2 data'] obtain w' where
          3: "only_dirs_made w2 w'"
          "update_packages w2 vendor_dir path data' packages =
             then_do (merge_packages (resolve w2) (files w2) vendor_dir path data' packages)
               (\<lambda>d. Inr (w', d))"
          by blast
        from 12 3(1) have "only_dirs_made w w'" by (rule only_dirs_made_trans)
        moreover from 12 have "files w2 = files w" "resolve w2 = resolve w"
          by (simp_all add: only_dirs_made_def)
        ultimately show ?thesis using 1 2 3 s i Inr by auto
      qed
    qed
  qed
qed

lemma update_configs_files:
  "\<exists>w'. resolve w' = resolve w \<and> spawned w' = spawned w \<and> stdout w' = stdout w \<and>
     update_configs w vendor_dir packages repository configs =
       then_do (rewrite_configs (resolve w) (files w) vendor_dir packages repository configs)
         (\<lambda>(F', r). Inr (w', r)) \<and>
     (\<forall>F' r. rewrite_configs (resolve w) (files w) vendor_dir packages repository configs = Inr (F', r)
        \<longrightarrow> files w' = F')"
proof (induction configs arbitrary: w repository)
  case Nil
  show ?case by simp
next
  case (Cons config configs)
  let ?F = "files w"
  let ?R = "resolve w"
  show ?case
  proof (cases "lookup_file ?F (?R config)")
    case (Inl e)
    then show ?thesis by (auto simp: read_file_lookup)
  next
    case (Inr c)
    note c = this
    then have fc: "files w (resolve w config) = Some c"
      by (auto simp: lookup_file_def split: option.splits)
    show ?thesis
    proof (cases "json_load c")
      case (Inl e)
      with c show ?thesis by (auto simp: read_file_lookup)
    next
      case (Inr data)
      note d = this
      show ?thesis
      proof (cases "py_getitem data ''repository''")
        case (Inl e)
        with c d show ?thesis by (auto simp: read_file_lookup)
      next
        case (Inr repository')
        note r = this
        show ?thesis
        proof (cases "py_getitem data ''source-directories''")
          case (Inl e)
          with c d r show ?thesis by (auto simp: read_file_lookup)
        next
          case (Inr source_directories)
          note s = this
          obtain w1 where 1: "only_dirs_made w w1"
            "update_packages w vendor_dir (ascent config) data packages =
               then_do (merge_packages ?R ?F vendor_dir (ascent config) data packages)
                 (\<lambda>data'. Inr (w1, data'))"
            using update_packages_files by blast
          from 1(1) have f1: "files w1 = files w" "resolve w1 = resolve w"
            "spawned w1 = spawned w" "stdout w1 = stdout w"
            by (simp_all add: only_dirs_made_def)
          show ?thesis
          proof (cases "merge_packages ?R ?F vendor_dir (ascent config) data packages")
            case (Inl e)
            with c d r s 1 show ?thesis by (auto simp: read_file_lookup)
          next
            case (Inr data')
            from fc f1 have "files w1 (resolve w1 config) = Some c" by simp
            from write_file_existing [OF this] obtain w2 where
              2: "write_file w1 config (JsonText (Some 4) data') = Inr w2"
                "files w2 = (files w1)(resolve w1 config \<mapsto> JsonText (Some 4) data')"
                "resolve w2 = resolve w1" "spawned w2 = spawned w1" "stdout w2 = stdout w1"
              by blast
            from Cons.IH [of w2 repository'] obtain w' where
              3: "resolve w' = resolve w2" "spawned w' = spawned w2" "stdout w' = stdout w2"
                 "update_configs w2 vendor_dir packages repository' configs =
                    then_do (rewrite_configs (resolve w2) (files w2) vendor_dir packages repository' configs)
                      (\<lambda>(F', r). Inr (w', r))"
                 "\<forall>F' r. rewrite_configs (resolve w2) (files w2) vendor_dir packages repository' configs
                    = Inr (F', r) \<longrightarrow> files w' = F'"
              by blast
            from c d r s 1(2) f1 2 3 Inr show ?thesis
              by (auto simp: read_file_lookup)
          qed
        qed
      qed
    qed
  qed
qed

lemma update_configs_Inr:
  assumes "update_configs w vendor_dir packages repository configs = Inr (w', r)"
  shows "rewrite_configs (resolve w) (files w) vendor_dir packages repository configs = Inr (files w', r)
         \<and> resolve w' = resolve w \<and> spawned w' = spawned w \<and> stdout w' = stdout w"
proof -
  obtain w'' where
    1: "resolve w'' = resolve w" "spawned w'' = spawned w" "stdout w'' = stdout w"
       "update_configs w vendor_dir packages repository configs =
          then_do (rewrite_configs (resolve w) (files w) vendor_dir packages repository configs)
            (\<lambda>(F', r). Inr (w'', r))"
       "\<forall>F' r. rewrite_configs (resolve w) (files w) vendor_dir packages repository configs = Inr (F', r)
          \<longrightarrow> files w'' = F'"
    using update_configs_files by blast
  from assms 1(4) obtain F' where
    "rewrite_configs (resolve w) (files w) vendor_dir packages repository configs = Inr (F', r)"
    "w'' = w'"
    by (auto simp: then_do_eq_Inr)
  with 1 show ?thesis by auto
qed

lemma update_elm_package_files:
  assumes "update_elm_package w vendor_dir (Some configs) packages = Inr (w', r)"
  shows "rewrite_configs (resolve w) (files w) vendor_dir packages (JString []) configs = Inr (files w', r)
         \<and> resolve w' = resolve w \<and> spawned w' = spawned w \<and> stdout w' = stdout w"
  using assms update_configs_Inr by (simp add: update_elm_package_def)

lemma files_update_elm_package:
  assumes "rewrite_configs (resolve w) (files w) vendor_dir packages (JString []) configs = Inr (F', r)"
  shows "\<exists>w'. update_elm_package w vendor_dir (Some configs) packages = Inr (w', r) \<and> files w' = F'
           \<and> resolve w' = resolve w"
proof -
  obtain w'' where
    1: "resolve w'' = resolve w"
       "update_configs w vendor_dir packages (JString []) configs =
          then_do (rewrite_configs (resolve w) (files w) vendor_dir packages (JString []) configs)
            (\<lambda>(F', r). Inr (w'', r))"
       "\<forall>F' r. rewrite_configs (resolve w) (files w) vendor_dir packages (JString []) configs = Inr (F', r)
          \<longrightarrow> files w'' = F'"
    using update_configs_files by blast
  with assms show ?thesis by (auto simp: update_elm_package_def)
qed

lemma config_document_files:
  "config_document w c = then_do (lookup_file (files w) (resolve w c)) json_load"
  by (simp add: config_document_def read_file_lookup)

lemma config_repository_files:
  "files w (resolve w c) = Some (JsonText k d) \<Longrightarrow> config_repository w c = py_getitem d ''repository''"
  by (simp add: config_repository_def read_file_lookup lookup_file_def)

lemma update_configs_append:
  "update_configs w vendor_dir packages repository (front @ back) =
     then_do (update_configs w vendor_dir packages repository front)
       (\<lambda>(w1, r1). update_configs w1 vendor_dir packages r1 back)"
proof (induction front arbitrary: w repository)
  case Nil
  show ?case by simp
next
  case (Cons config front)
  show ?case
    by (simp add: then_do_assoc Cons.IH split_def cong: then_do_cong)
qed

subsection \<open>The name munger\<close>

lemma namespace_from_repo_Inr:
  "namespace_from_repo repository = Inr r \<Longrightarrow> \<exists>ns nm. r = [ns, nm]"
  by (cases repository) (auto split: list.splits, metis)

lemma munge_each_total:
  "\<exists>w'. munge_each w vendor_dir ns nm packages = Inr w' \<and> files w' = files w \<and>
     resolve w' = resolve w \<and>
     spawned w' = spawned w @
       map (\<lambda>p. sed_argv (package_path vendor_dir p)
                  (format_native_name (namespace p) (name p)) (format_native_name ns nm)) packages"
proof (induction packages arbitrary: w)
  case Nil
  show ?case by simp
next
  case (Cons p packages)
  obtain w1 where 1: "package_dir w vendor_dir p = Inr (w1, package_path vendor_dir p)"
    "only_dirs_made w w1"
    using package_dir_total by blast
  from 1(2) have 2: "files w1 = files w" "resolve w1 = resolve w" "spawned w1 = spawned w"
    by (simp_all add: only_dirs_made_def)
  let ?w2 = "w1\<lparr>spawned := spawned w1 @
      [sed_argv (package_path vendor_dir p) (format_native_name (namespace p) (name p))
         (format_native_name ns nm)]\<rparr>"
  have f: "files ?w2 = files w1" by (simp add: files_def fun_eq_iff)
  from Cons.IH [of ?w2] obtain w' where
    "munge_each ?w2 vendor_dir ns nm packages = Inr w'" "files w' = files ?w2"
    "resolve w' = resolve ?w2"
    "spawned w' = spawned ?w2 @
       map (\<lambda>p. sed_argv (package_path vendor_dir p)
                  (format_native_name (namespace p) (name p)) (format_native_name ns nm)) packages"
    by blast
  with 1 2 f show ?case by simp
qed

subsection \<open>One config file of the list\<close>

text \<open>
  What \<open>update_configs\<close> does with the config file at the head of its list: it reads
  the document, merges the packages into it with the ascent prefix of that config's
  path, and writes the result back to the same path before it goes on. With
  \<open>update_configs_append\<close> this describes every config file of a list.
\<close>

lemma write_file_file_at: "write_file w p c = Inr w' \<Longrightarrow> file_at w' p = Some c"
  by (auto simp: write_file_def write_at_def file_at_def files_def
      split: option.splits node.splits if_splits)

lemma update_configs_head:
  assumes run: "update_configs w vendor_dir packages r0 (config # later) = Inr (w_end, r)"
  shows "\<exists>data data' w2 repo.
           config_document w config = Inr data
           \<and> py_getitem data ''repository'' = Inr repo
           \<and> merge_packages (resolve w) (files w) vendor_dir (ascent config) data packages = Inr data'
           \<and> file_at w2 config = Some (JsonText (Some 4) data')
           \<and> update_configs w2 vendor_dir packages repo later = Inr (w_end, r)"
proof -
  from run obtain c data repo s w1 data' w2 where
    1: "read_file w config = Inr c" "json_load c = Inr data"
       "py_getitem data ''repository'' = Inr repo"
       "update_packages w vendor_dir (ascent config) data packages = Inr (w1, data')"
       "write_file w1 config (JsonText (Some 4) data') = Inr w2"
       "update_configs w2 vendor_dir packages repo later = Inr (w_end, r)"
    by (auto simp: then_do_eq_Inr)
  from 1(1,2) have doc: "config_document w config = Inr data"
    by (simp add: config_document_def)
  from update_packages_files [of w vendor_dir "ascent config" data packages] obtain w' where
    "update_packages w vendor_dir (ascent config) data packages =
       then_do (merge_packages (resolve w) (files w) vendor_dir (ascent config) data packages)
         (\<lambda>data'. Inr (w', data'))"
    by blast
  with 1(4) have
    "merge_packages (resolve w) (files w) vendor_dir (ascent config) data packages = Inr data'"
    by (auto simp: then_do_eq_Inr)
  with doc 1(3) write_file_file_at [OF 1(5)] 1(6) show ?thesis by blast
qed

lemma merge_packages_relative:
  assumes m: "merge_packages R F vendor_dir (ascent config) data packages = Inr data'"
    and rel: "\<forall>p \<in> set packages. \<not> is_absolute (package_path vendor_dir p) \<and>
                (\<forall>d \<in> set (declared R F vendor_dir p). \<not> is_absolute d)"
  shows "add_source_directories data
           (concat (map (\<lambda>p. references config vendor_dir p (declared R F vendor_dir p)) packages))
         = Inr data'"
proof -
  have "map (\<lambda>p. map (\<lambda>d. os_path_join (os_path_join (ascent config) (package_path vendor_dir p)) d)
                      (declared R F vendor_dir p)) packages =
        map (\<lambda>p. references config vendor_dir p (declared R F vendor_dir p)) packages"
    using rel by (auto simp: references_def ascent_def [symmetric] join_ascent)
  with merge_packages_references [OF m] show ?thesis by simp
qed

text \<open>
  Two path strings can name one file. With the package of \<open>vendored_config_world\<close>, the
  config path below is not the string \<open>get_source_dirs\<close> builds for the metadata file,
  but it resolves to the same file, and a second run of the updater adds to it again.
\<close>

lemma dot_slash_names_the_metadata_file:
  "''./vendor/elm-lang/navigation-2.0.0/elm-package.json'' \<noteq> elm_package_filename ''vendor'' nav
   \<and> resolve vendored_config_world ''./vendor/elm-lang/navigation-2.0.0/elm-package.json'' =
       resolve vendored_config_world (elm_package_filename ''vendor'' nav)
   \<and> (case update_elm_package vendored_config_world ''vendor''
             (Some [''./vendor/elm-lang/navigation-2.0.0/elm-package.json'']) [nav] of
        Inl e \<Rightarrow> False
      | Inr (w1, r1) \<Rightarrow>
          (case update_elm_package w1 ''vendor''
                  (Some [''./vendor/elm-lang/navigation-2.0.0/elm-package.json'']) [nav] of
             Inl e \<Rightarrow> False
           | Inr (w2, r2) \<Rightarrow>
               config_document w2 ''vendor/elm-lang/navigation-2.0.0/elm-package.json'' \<noteq>
               config_document w1 ''vendor/elm-lang/navigation-2.0.0/elm-package.json''))"
  by code_simp

section \<open>The claims\<close>

subsection \<open>C1: the skip check\<close>

text \<open>
  Claim C1 says that a package whose stored archive (the file at the path
  \<open>format_tar_file\<close> computes) already exists is left out of the fetch, config-update
  and munge stages. \<open>filter_packages\<close> tests that path with \<^verbatim>\<open>os.path.isdir\<close>, while
  \<open>fetch_packages\<close> stores the archive there as a regular file. In the state a first
  run leaves behind the archive exists, and yet the package is kept: it is downloaded
  again, merged into the config and munged. Lemma \<open>filter_packages_keeps_files\<close> shows
  the same for every package whose archive is a regular file.
\<close>

theorem filter_packages_keeps_stored_archive:
  "os_path_exists fetched_world ''vendor/assets/elm/elm-lang/navigation-2.0.0-tar.gz''
   \<and> (case filter_packages fetched_world ''vendor/assets/elm'' [nav] of
        Inr (w, kept) \<Rightarrow> kept = [nav] | Inl e \<Rightarrow> False)
   \<and> (case main fetched_world ''elm-native-package.json'' (Some [''elm-package.json''])
             ''vendor/assets/elm'' of
        Inr w \<Rightarrow>
          stdout w = [''Downloading elm-lang/navigation 2.0.0'']
          \<and> spawned w = [sed_argv ''vendor/assets/elm/elm-lang/navigation-2.0.0''
                           ''_elm_lang$navigation'' ''_acme$app'']
          \<and> config_document w ''elm-package.json'' =
              Inr (JObject [(''version'', JString ''1.0.0''),
                            (''repository'', JString ''https://github.com/acme/app.git''),
                            (''source-directories'',
                               JArray [JString ''src'',
                                       JString ''vendor/assets/elm/elm-lang/navigation-2.0.0/src'']),
                            (''dependencies'', JObject [])])
      | Inl e \<Rightarrow> False)"
  by code_simp

subsection \<open>C2: owner and name of a repository\<close>

text \<open>
  Claim C2 says that \<open>namespace_from_repo\<close> removes exactly the prefix
  \<^verbatim>\<open>https://github.com/\<close> and the suffix \<^verbatim>\<open>.git\<close> and returns owner and name.
  \<^verbatim>\<open>lstrip\<close> and \<^verbatim>\<open>rstrip\<close> remove characters of a set, not a prefix or suffix, so they
  also eat into an owner that starts with, or a name that ends in, one of those
  characters: the example of the docstring comes out right, for \<^verbatim>\<open>mozilla/rust\<close> the
  result is \<^verbatim>\<open>zilla\<close> and \<^verbatim>\<open>rus\<close>, and for \<^verbatim>\<open>github/hub\<close> the owner and the separator
  are eaten whole and the unpacking fails.
\<close>

theorem namespace_from_repo_strips_characters:
  "namespace_from_repo (JString ''https://github.com/NoRedInk/noredink.git'') =
     Inr [''NoRedInk'', ''noredink'']
   \<and> namespace_from_repo (JString ''https://github.com/mozilla/rust.git'') = Inr [''zilla'', ''rus'']
   \<and> namespace_from_repo (JString ''https://github.com/github/hub.git'') = Inl ValueError"
  by (simp add: lstrip_def rstrip_def)

subsection \<open>C3: from manifest key to package directory\<close>

text \<open>
  Claim C3 as stated, for every vendor base path, fails for a base path that ends in a
  separator: \<^verbatim>\<open>os.path.join\<close> adds no second one.
\<close>

theorem package_dir_trailing_slash:
  "parse_json [(''elm-lang/navigation'', ''2.0.0'')] =
     Inr [\<lparr>namespace = ''elm-lang'', name = ''navigation'', version = ''2.0.0''\<rparr>]
   \<and> (case package_dir empty_world ''vendor/assets/elm/''
             \<lparr>namespace = ''elm-lang'', name = ''navigation'', version = ''2.0.0''\<rparr> of
        Inr (w', path) \<Rightarrow> path = ''vendor/assets/elm/elm-lang/navigation-2.0.0''
                          \<and> path \<noteq> ''vendor/assets/elm//elm-lang/navigation-2.0.0''
      | Inl e \<Rightarrow> False)"
  by code_simp

text \<open>
  Claim C3, amended: for a manifest key \<open>ns/nm\<close> with no separator in \<open>ns\<close> or \<open>nm\<close>, and
  a vendor base path that is not empty and does not end in a separator, parsing the key
  and computing the package directory gives the string \<open>vendor/ns/nm-ver\<close>.
\<close>

theorem parse_then_package_dir:
  assumes "CHR ''/'' \<notin> set ns" and "CHR ''/'' \<notin> set nm"
    and "vendor \<noteq> []" and "last vendor \<noteq> CHR ''/''"
  shows "\<exists>p w'. parse_json [(ns @ ''/'' @ nm, ver)] = Inr [p]
           \<and> p = \<lparr>namespace = ns, name = nm, version = ver\<rparr>
           \<and> package_dir w vendor p = Inr (w', vendor @ ''/'' @ ns @ ''/'' @ nm @ ''-'' @ ver)"
proof -
  let ?p = "\<lparr>namespace = ns, name = nm, version = ver\<rparr>"
  have "py_split CHR ''/'' (ns @ ''/'' @ nm) = [ns, nm]"
    using assms(1,2) by (simp add: py_split_one_sep py_split_no_sep)
  then have parse: "parse_json [(ns @ ''/'' @ nm, ver)] = Inr [?p]" by simp
  have "package_path vendor ?p = vendor @ ''/'' @ ns @ ''/'' @ nm @ ''-'' @ ver"
    using assms by (simp add: package_path_def os_path_join_plain no_slash_not_absolute)
  with package_dir_total [of w vendor ?p] parse show ?thesis by auto
qed

theorem parse_then_package_dir_witness:
  "CHR ''/'' \<notin> set ''elm-lang'' \<and> CHR ''/'' \<notin> set ''navigation''
   \<and> ''vendor/assets/elm'' \<noteq> [] \<and> last ''vendor/assets/elm'' \<noteq> CHR ''/''
   \<and> (\<exists>p w'. parse_json [(''elm-lang/navigation'', ''2.0.0'')] = Inr [p]
         \<and> p = \<lparr>namespace = ''elm-lang'', name = ''navigation'', version = ''2.0.0''\<rparr>
         \<and> package_dir empty_world ''vendor/assets/elm'' p =
             Inr (w', ''vendor/assets/elm/elm-lang/navigation-2.0.0''))"
  using parse_then_package_dir [of "''elm-lang''" "''navigation''" "''vendor/assets/elm''"
      "''2.0.0''" empty_world]
  by simp

subsection \<open>C4: running the updater twice\<close>

text \<open>
  Claim C4 as stated, for any config file, fails when a config file is itself the
  metadata file of one of the packages: the first run adds references to that file, the
  second run reads them as declared sub-directories and adds references to the
  references.
\<close>

theorem vendored_config_grows_again:
  "(case update_elm_package vendored_config_world ''vendor''
          (Some [''vendor/elm-lang/navigation-2.0.0/elm-package.json'']) [nav] of
      Inl e \<Rightarrow> False
    | Inr (w1, r1) \<Rightarrow>
        py_getitem (projr (config_document w1 ''vendor/elm-lang/navigation-2.0.0/elm-package.json''))
            ''source-directories'' =
          Inr (JArray [JString ''src'', JString ''../../../vendor/elm-lang/navigation-2.0.0/src''])
        \<and> (case update_elm_package w1 ''vendor''
                 (Some [''vendor/elm-lang/navigation-2.0.0/elm-package.json'']) [nav] of
             Inl e \<Rightarrow> False
           | Inr (w2, r2) \<Rightarrow>
               py_getitem (projr (config_document w2 ''vendor/elm-lang/navigation-2.0.0/elm-package.json''))
                   ''source-directories'' =
                 Inr (JArray [JString ''src'', JString ''../../../vendor/elm-lang/navigation-2.0.0/src'',
                        JString ''../../../vendor/elm-lang/navigation-2.0.0/../../../vendor/elm-lang/navigation-2.0.0/src''])))"
  by code_simp

text \<open>
  Claim C4, amended: when no config file is the metadata file (\<^verbatim>\<open>elm-package.json\<close> in
  the package directory) of one of the packages, a second run of \<open>update_elm_package\<close>
  with the same configs and packages succeeds, returns the same repository and leaves
  every file as the first run left it, so every \<^verbatim>\<open>source-directories\<close> list is the same
  after two runs as after one. Being the same file is meant as the file system has it:
  the two paths resolve to the same place, whatever their spelling (lemma
  \<open>dot_slash_names_the_metadata_file\<close> shows that a different spelling of the same file
  does not help). A run adds a relative path only when the membership test does not
  find it: what it adds to a list are entries that differ from each other and from the
  entries the list had.
\<close>

theorem update_elm_package_twice:
  assumes run: "update_elm_package w vendor_dir (Some configs) packages = Inr (w1, r)"
    and na: "\<forall>c \<in> set configs. \<forall>p \<in> set packages.
               resolve w (elm_package_filename vendor_dir p) \<noteq> resolve w c"
  shows "\<exists>w2. update_elm_package w1 vendor_dir (Some configs) packages = Inr (w2, r)
           \<and> file_at w2 = file_at w1
           \<and> (\<forall>c \<in> set configs. config_document w2 c = config_document w1 c)
           \<and> (\<forall>c \<in> set configs. \<exists>k d d'.
                 file_at w c = Some (JsonText k d) \<and> file_at w1 c = Some (JsonText (Some 4) d')
                 \<and> only_source_directories_extended d d')"
proof -
  from update_elm_package_files [OF run] have
    1: "rewrite_configs (resolve w) (files w) vendor_dir packages (JString []) configs = Inr (files w1, r)"
    and R: "resolve w1 = resolve w"
    by simp_all
  from rewrite_configs_idempotent [OF 1 na] R have
    "rewrite_configs (resolve w1) (files w1) vendor_dir packages (JString []) configs = Inr (files w1, r)"
    by simp
  from files_update_elm_package [OF this] obtain w2 where
    2: "update_elm_package w1 vendor_dir (Some configs) packages = Inr (w2, r)"
       "files w2 = files w1" "resolve w2 = resolve w1"
    by blast
  have f: "file_at w2 = file_at w1"
    using 2 by (simp add: file_at_def fun_eq_iff)
  have 3: "\<forall>c \<in> set configs. config_document w2 c = config_document w1 c"
    using 2 by (simp add: config_document_files)
  have 4: "\<forall>c \<in> set configs. \<exists>k d d'.
             file_at w c = Some (JsonText k d) \<and> file_at w1 c = Some (JsonText (Some 4) d')
             \<and> only_source_directories_extended d d'"
    using rewrite_configs_frame [OF 1] grows_elementwise R unfolding file_at_def by metis
  from 2 f 3 4 show ?thesis by blast
qed

theorem update_elm_package_twice_witness:
  "resolve vendored_world (elm_package_filename ''vendor/assets/elm'' nav) \<noteq>
     resolve vendored_world ''elm-package.json''
   \<and> (\<exists>w1 r w2.
         update_elm_package vendored_world ''vendor/assets/elm'' (Some [''elm-package.json'']) [nav]
           = Inr (w1, r)
         \<and> update_elm_package w1 ''vendor/assets/elm'' (Some [''elm-package.json'']) [nav]
           = Inr (w2, r)
         \<and> file_at w2 = file_at w1
         \<and> config_document w2 ''elm-package.json'' = config_document w1 ''elm-package.json''
         \<and> config_document w1 ''elm-package.json'' =
             Inr (JObject [(''version'', JString ''1.0.0''),
                           (''repository'', JString ''https://github.com/acme/app.git''),
                           (''source-directories'',
                              JArray [JString ''src'',
                                      JString ''vendor/assets/elm/elm-lang/navigation-2.0.0/src'']),
                           (''dependencies'', JObject [])]))"
proof -
  let ?run = "update_elm_package vendored_world ''vendor/assets/elm'' (Some [''elm-package.json'']) [nav]"
  have n: "resolve vendored_world (elm_package_filename ''vendor/assets/elm'' nav) \<noteq>
             resolve vendored_world ''elm-package.json''"
    by code_simp
  then have na: "\<forall>c \<in> set [''elm-package.json'']. \<forall>p \<in> set [nav].
                   resolve vendored_world (elm_package_filename ''vendor/assets/elm'' p) \<noteq>
                   resolve vendored_world c"
    by simp
  have "case ?run of Inl e \<Rightarrow> False
        | Inr (w1, r) \<Rightarrow> config_document w1 ''elm-package.json'' =
             Inr (JObject [(''version'', JString ''1.0.0''),
                           (''repository'', JString ''https://github.com/acme/app.git''),
                           (''source-directories'',
                              JArray [JString ''src'',
                                      JString ''vendor/assets/elm/elm-lang/navigation-2.0.0/src'']),
                           (''dependencies'', JObject [])])"
    by code_simp
  then obtain w1 r where run: "?run = Inr (w1, r)"
    and doc: "config_document w1 ''elm-package.json'' =
             Inr (JObject [(''version'', JString ''1.0.0''),
                           (''repository'', JString ''https://github.com/acme/app.git''),
                           (''source-directories'',
                              JArray [JString ''src'',
                                      JString ''vendor/assets/elm/elm-lang/navigation-2.0.0/src'']),
                           (''dependencies'', JObject [])])"
    by (cases ?run) auto
  from update_elm_package_twice [OF run na] n run doc show ?thesis by auto
qed

subsection \<open>C5: what the updater leaves alone\<close>

text \<open>
  Claim C5: a run of \<open>update_elm_package\<close> changes no file but the config files (a
  path that resolves to the place of no config file reads as before the run); each
  config file keeps its keys in their order and the value under every key other than
  \<^verbatim>\<open>source-directories\<close>; the entries of that list stay where they are and new ones
  come after them; and the file is written with indentation 4.
\<close>

theorem update_elm_package_frame:
  assumes run: "update_elm_package w vendor_dir (Some configs) packages = Inr (w', r)"
  shows "(\<forall>q. (\<forall>c \<in> set configs. resolve w q \<noteq> resolve w c) \<longrightarrow> file_at w' q = file_at w q)
         \<and> (\<forall>c \<in> set configs. \<exists>k d d'.
               file_at w c = Some (JsonText k d) \<and> file_at w' c = Some (JsonText (Some 4) d')
               \<and> only_source_directories_extended d d')"
proof -
  from update_elm_package_files [OF run] have
    1: "rewrite_configs (resolve w) (files w) vendor_dir packages (JString []) configs = Inr (files w', r)"
    and R: "resolve w' = resolve w"
    by simp_all
  note fr = rewrite_configs_frame [OF 1]
  have a: "file_at w' q = file_at w q" if "\<forall>c \<in> set configs. resolve w q \<noteq> resolve w c" for q
  proof -
    from that have "resolve w q \<notin> resolve w ` set configs" by auto
    with fr R show ?thesis by (simp add: file_at_def)
  qed
  have b: "\<forall>c \<in> set configs. \<exists>k d d'.
               file_at w c = Some (JsonText k d) \<and> file_at w' c = Some (JsonText (Some 4) d')
               \<and> only_source_directories_extended d d'"
    using fr grows_elementwise R unfolding file_at_def by metis
  from a b show ?thesis by blast
qed

theorem update_elm_package_frame_witness:
  "\<exists>w' r d'.
     update_elm_package vendored_world ''vendor/assets/elm'' (Some [''elm-package.json'']) [nav]
       = Inr (w', r)
     \<and> file_at vendored_world ''elm-package.json'' = Some (JsonText (Some 2) app_config)
     \<and> file_at w' ''elm-package.json'' = Some (JsonText (Some 4) d')
     \<and> only_source_directories_extended app_config d'
     \<and> resolve vendored_world ''vendor/assets/elm/elm-lang/navigation-2.0.0/elm-package.json'' \<noteq>
         resolve vendored_world ''elm-package.json''
     \<and> file_at w' ''vendor/assets/elm/elm-lang/navigation-2.0.0/elm-package.json'' =
         file_at vendored_world ''vendor/assets/elm/elm-lang/navigation-2.0.0/elm-package.json''"
proof -
  let ?run = "update_elm_package vendored_world ''vendor/assets/elm'' (Some [''elm-package.json'']) [nav]"
  have "case ?run of Inl e \<Rightarrow> False | Inr x \<Rightarrow> True"
    by code_simp
  then obtain w' r where run: "?run = Inr (w', r)"
    by (cases ?run) auto
  have f: "file_at vendored_world ''elm-package.json'' = Some (JsonText (Some 2) app_config)"
    by code_simp
  have n: "resolve vendored_world ''vendor/assets/elm/elm-lang/navigation-2.0.0/elm-package.json'' \<noteq>
         resolve vendored_world ''elm-package.json''"
    by code_simp
  from update_elm_package_frame [OF run] f n run show ?thesis by auto
qed

subsection \<open>C6: manifest keys\<close>

text \<open>
  Claim C6: \<open>parse_json\<close> raises (a \<open>ValueError\<close>, from unpacking the split) as soon as
  one key of the manifest has no separator or more than one; when every key has exactly
  one, each item yields its descriptor: the part before the separator as namespace, the
  part after it as name, and the version.
\<close>

theorem parse_json_key_check:
  "parse_json raw =
     (if \<forall>kv \<in> set raw. count_list (fst kv) CHR ''/'' = 1
      then Inr (map descriptor raw)
      else Inl ValueError)"
proof (induction raw)
  case Nil
  then show ?case by simp
next
  case (Cons kv raw)
  obtain k v where kv: "kv = (k, v)" by (cases kv)
  show ?case unfolding kv parse_json_Cons using Cons.IH by simp
qed

theorem parse_json_key_check_witness:
  "parse_json [(''elm-lang/navigation'', ''2.0.0'')] =
     Inr [\<lparr>namespace = ''elm-lang'', name = ''navigation'', version = ''2.0.0''\<rparr>]
   \<and> parse_json [(''elm-lang/navigation'', ''2.0.0''), (''navigation'', ''1.0.0'')] = Inl ValueError
   \<and> parse_json [(''elm-lang/navigation/src'', ''2.0.0'')] = Inl ValueError"
  using parse_json_key_check [of "[(''elm-lang/navigation'', ''2.0.0'')]"]
    parse_json_key_check [of "[(''elm-lang/navigation'', ''2.0.0''), (''navigation'', ''1.0.0'')]"]
    parse_json_key_check [of "[(''elm-lang/navigation/src'', ''2.0.0'')]"]
  by (simp add: descriptor_def)

subsection \<open>C7: ascent segments\<close>

text \<open>
  Claim C7 as stated, for every config path, fails when the vendor directory is an
  absolute path: \<^verbatim>\<open>os.path.join\<close> then discards the ascent prefix. The config path below
  has one separator and the reference written has no ascent segment.
\<close>

theorem absolute_vendor_dir_drops_ascent:
  "count_list ''app/elm-package.json'' CHR ''/'' = 1
   \<and> (case update_elm_package absolute_vendor_world ''/srv/vendor''
             (Some [''app/elm-package.json'']) [nav] of
        Inr (w', r) \<Rightarrow>
          config_document w' ''app/elm-package.json'' =
            Inr (JObject [(''version'', JString ''1.0.0''),
                          (''repository'', JString ''https://github.com/acme/app.git''),
                          (''source-directories'',
                             JArray [JString ''src'',
                                     JString ''/srv/vendor/elm-lang/navigation-2.0.0/src'']),
                          (''dependencies'', JObject [])])
      | Inl e \<Rightarrow> False)"
  by code_simp

text \<open>
  Claim C7, amended: take any config file of the list given to \<open>update_elm_package\<close>,
  with the config files \<open>front\<close> before it and \<open>later\<close> after it. The run processes
  \<open>front\<close>, reads the document of the config, writes a document back to the same path
  and goes on with \<open>later\<close>. When no package directory and no sub-directory a package
  declares is an absolute path, the document written is the document read with these
  references merged into its \<^verbatim>\<open>source-directories\<close>, package by package and
  sub-directory by sub-directory: \<open>n\<close> copies of \<^verbatim>\<open>../\<close> followed by the join of package
  directory and sub-directory, where \<open>n\<close> is the number of separators in the path string
  of that config (none for \<open>n = 0\<close>).
\<close>

theorem ascent_prefix:
  assumes run: "update_elm_package w vendor_dir (Some (front @ config # later)) packages
                  = Inr (w_end, r)"
  shows "\<exists>w1 r1 data repo data' w2.
           update_configs w vendor_dir packages (JString []) front = Inr (w1, r1)
           \<and> config_document w1 config = Inr data
           \<and> py_getitem data ''repository'' = Inr repo
           \<and> file_at w2 config = Some (JsonText (Some 4) data')
           \<and> update_configs w2 vendor_dir packages repo later = Inr (w_end, r)
           \<and> ((\<forall>p \<in> set packages. \<not> is_absolute (package_path vendor_dir p) \<and>
                   (\<forall>d \<in> set (declared_dirs w1 vendor_dir p). \<not> is_absolute d))
                \<longrightarrow> add_source_directories data
                      (concat (map (\<lambda>p. references config vendor_dir p
                                           (declared_dirs w1 vendor_dir p)) packages))
                    = Inr data')"
proof -
  from run have "update_configs w vendor_dir packages (JString []) (front @ config # later)
                   = Inr (w_end, r)"
    by (simp add: update_elm_package_def)
  then obtain w1 r1 where
    1: "update_configs w vendor_dir packages (JString []) front = Inr (w1, r1)"
    and 2: "update_configs w1 vendor_dir packages r1 (config # later) = Inr (w_end, r)"
    unfolding update_configs_append then_do_eq_Inr by auto
  from update_configs_head [OF 2] obtain data data' w2 repo where
    3: "config_document w1 config = Inr data"
       "py_getitem data ''repository'' = Inr repo"
       "merge_packages (resolve w1) (files w1) vendor_dir (ascent config) data packages = Inr data'"
       "file_at w2 config = Some (JsonText (Some 4) data')"
       "update_configs w2 vendor_dir packages repo later = Inr (w_end, r)"
    by blast
  have 4: "add_source_directories data
             (concat (map (\<lambda>p. references config vendor_dir p (declared_dirs w1 vendor_dir p))
                          packages)) = Inr data'"
    if "\<forall>p \<in> set packages. \<not> is_absolute (package_path vendor_dir p) \<and>
          (\<forall>d \<in> set (declared_dirs w1 vendor_dir p). \<not> is_absolute d)"
    using merge_packages_relative [OF 3(3)] that by (simp add: declared_dirs_def)
  from 1 3 4 show ?thesis by blast
qed

theorem ascent_prefix_witness:
  "count_list ''tests/elm-package.json'' CHR ''/'' = 1
   \<and> references ''tests/elm-package.json'' ''vendor/assets/elm'' nav [''src''] =
       [''../vendor/assets/elm/elm-lang/navigation-2.0.0/src'']
   \<and> \<not> is_absolute (package_path ''vendor/assets/elm'' nav) \<and> \<not> is_absolute ''src''
   \<and> (\<exists>w_end r w1 r1 w2.
         update_elm_package two_config_world ''vendor/assets/elm''
             (Some ([''elm-package.json''] @ ''tests/elm-package.json'' # [])) [nav]
           = Inr (w_end, r)
         \<and> update_configs two_config_world ''vendor/assets/elm'' [nav] (JString [])
               [''elm-package.json''] = Inr (w1, r1)
         \<and> declared_dirs w1 ''vendor/assets/elm'' nav = [''src'']
         \<and> config_document w1 ''tests/elm-package.json'' = Inr tests_config
         \<and> file_at w2 ''tests/elm-package.json'' =
             Some (JsonText (Some 4)
               (JObject [(''version'', JString ''1.0.0''),
                         (''repository'', JString ''https://github.com/acme/tests.git''),
                         (''source-directories'',
                            JArray [JString ''.'', JString ''../src'',
                                    JString ''../vendor/assets/elm/elm-lang/navigation-2.0.0/src'']),
                         (''dependencies'', JObject [])]))
         \<and> update_configs w2 ''vendor/assets/elm'' [nav]
               (JString ''https://github.com/acme/tests.git'') [] = Inr (w_end, r))"
proof -
  let ?v = "''vendor/assets/elm''"
  let ?t = "''tests/elm-package.json''"
  let ?front = "update_configs two_config_world ?v [nav] (JString []) [''elm-package.json'']"
  let ?run = "update_elm_package two_config_world ?v
                (Some ([''elm-package.json''] @ ?t # [])) [nav]"
  let ?out = "JObject [(''version'', JString ''1.0.0''),
                       (''repository'', JString ''https://github.com/acme/tests.git''),
                       (''source-directories'',
                          JArray [JString ''.'', JString ''../src'',
                                  JString ''../vendor/assets/elm/elm-lang/navigation-2.0.0/src'']),
                       (''dependencies'', JObject [])]"
  have n: "count_list ?t CHR ''/'' = 1" by code_simp
  have rf: "references ?t ?v nav [''src''] =
              [''../vendor/assets/elm/elm-lang/navigation-2.0.0/src'']"
    by code_simp
  have a: "\<not> is_absolute (package_path ?v nav)" by code_simp
  have b: "\<not> is_absolute ''src''" by simp
  have "case ?front of Inl e \<Rightarrow> False
        | Inr (w1, r1) \<Rightarrow> declared_dirs w1 ?v nav = [''src'']
                           \<and> config_document w1 ?t = Inr tests_config"
    by code_simp
  then obtain w1 r1 where front: "?front = Inr (w1, r1)"
    and d: "declared_dirs w1 ?v nav = [''src'']"
    and doc: "config_document w1 ?t = Inr tests_config"
    by (cases ?front) auto
  have "case ?run of Inl e \<Rightarrow> False | Inr x \<Rightarrow> True" by code_simp
  then obtain w_end r where run: "?run = Inr (w_end, r)" by (cases ?run) auto
  from ascent_prefix [OF run] front obtain data repo data' w2 where
    1: "config_document w1 ?t = Inr data"
       "py_getitem data ''repository'' = Inr repo"
       "file_at w2 ?t = Some (JsonText (Some 4) data')"
       "update_configs w2 ?v [nav] repo [] = Inr (w_end, r)"
    and 2: "(\<forall>p \<in> set [nav]. \<not> is_absolute (package_path ?v p) \<and>
               (\<forall>d \<in> set (declared_dirs w1 ?v p). \<not> is_absolute d))
            \<longrightarrow> add_source_directories data
                  (concat (map (\<lambda>p. references ?t ?v p (declared_dirs w1 ?v p)) [nav]))
                = Inr data'"
    by auto
  from 1(1) doc have data: "data = tests_config" by simp
  have "py_getitem tests_config ''repository'' = Inr (JString ''https://github.com/acme/tests.git'')"
    by code_simp
  with 1(2) data have repo: "repo = JString ''https://github.com/acme/tests.git''" by simp
  have "add_source_directories tests_config
          [''../vendor/assets/elm/elm-lang/navigation-2.0.0/src''] = Inr ?out"
    by code_simp
  with 2 a b d rf data have data': "data' = ?out" by simp
  from run front d doc 1(3,4) repo data' have
    "\<exists>w_end r w1 r1 w2.
         ?run = Inr (w_end, r) \<and> ?front = Inr (w1, r1)
         \<and> declared_dirs w1 ?v nav = [''src'']
         \<and> config_document w1 ?t = Inr tests_config
         \<and> file_at w2 ?t = Some (JsonText (Some 4) ?out)
         \<and> update_configs w2 ?v [nav] (JString ''https://github.com/acme/tests.git'') []
             = Inr (w_end, r)"
    by blast
  with n rf a b show ?thesis by blast
qed

subsection \<open>C8: the repository that is returned\<close>

text \<open>
  Claim C8: \<open>update_elm_package\<close> returns the \<^verbatim>\<open>repository\<close> field of the last config
  file of the list, as it stands in that file before and after the run; the configs
  are processed in list order, the last one after all the others; and a run of \<open>main\<close>
  that succeeds went through its stages in order (read and parse the manifest, filter,
  fetch, update the configs, munge), the value \<open>munge_names\<close> received is the
  \<^verbatim>\<open>repository\<close> field of the last config file, and the child processes the run started
  are one per package kept, each with the owner and name of that repository in its
  \<^verbatim>\<open>sed\<close> script.
\<close>

theorem last_repository_wins:
  "(update_elm_package w vendor_dir (Some configs) packages = Inr (w', repository) \<and> configs \<noteq> []
      \<longrightarrow> config_repository w (last configs) = Inr repository
          \<and> config_repository w' (last configs) = Inr repository)
   \<and> update_configs w vendor_dir packages r0 (front @ [config]) =
       then_do (update_configs w vendor_dir packages r0 front)
         (\<lambda>(w1, r1). update_configs w1 vendor_dir packages r1 [config])
   \<and> (main w0 native_elm_package (Some configs) vendor_dir = Inr w_end \<and> configs \<noteq> []
      \<longrightarrow> (\<exists>raw parsed w1 kept w2 w3 repo ns nm.
             read_native_elm_package w0 native_elm_package = Inr raw
             \<and> parse_json raw = Inr parsed
             \<and> filter_packages w0 vendor_dir parsed = Inr (w1, kept)
             \<and> fetch_packages w1 vendor_dir kept = Inr w2
             \<and> update_elm_package w2 vendor_dir (Some configs) kept = Inr (w3, repo)
             \<and> config_repository w2 (last configs) = Inr repo
             \<and> munge_names w3 vendor_dir repo kept = Inr w_end
             \<and> namespace_from_repo repo = Inr [ns, nm]
             \<and> spawned w_end = spawned w0 @
                 map (\<lambda>p. sed_argv (package_path vendor_dir p)
                            (format_native_name (namespace p) (name p))
                            (format_native_name ns nm)) kept))"
proof (intro conjI impI)
  assume a: "update_elm_package w vendor_dir (Some configs) packages = Inr (w', repository) \<and> configs \<noteq> []"
  then have ne: "configs \<noteq> []" by simp
  from a update_elm_package_files [of w vendor_dir configs packages w' repository] have
    1: "rewrite_configs (resolve w) (files w) vendor_dir packages (JString []) configs
          = Inr (files w', repository)"
    and R: "resolve w' = resolve w"
    by simp_all
  from rewrite_configs_first_repository [OF 1 ne]
  show "config_repository w (last configs) = Inr repository"
    by (auto simp: config_repository_files)
  from rewrite_configs_last_repository [OF 1 ne] R
  show "config_repository w' (last configs) = Inr repository"
    by (auto simp: config_repository_files)
next
  show "update_configs w vendor_dir packages r0 (front @ [config]) =
       then_do (update_configs w vendor_dir packages r0 front)
         (\<lambda>(w1, r1). update_configs w1 vendor_dir packages r1 [config])"
    by (rule update_configs_append)
next
  assume a: "main w0 native_elm_package (Some configs) vendor_dir = Inr w_end \<and> configs \<noteq> []"
  then have ne: "configs \<noteq> []" by simp
  from a obtain raw parsed w1 kept w2 w3 repo where
    s1: "read_native_elm_package w0 native_elm_package = Inr raw" and
    s2: "parse_json raw = Inr parsed" and
    s3: "filter_packages w0 vendor_dir parsed = Inr (w1, kept)" and
    s4: "fetch_packages w1 vendor_dir kept = Inr w2" and
    u: "update_elm_package w2 vendor_dir (Some configs) kept = Inr (w3, repo)" and
    m: "munge_names w3 vendor_dir repo kept = Inr w_end"
    by (auto simp: main_def then_do_eq_Inr)
  from filter_packages_keeps_files [of w0 vendor_dir parsed] s3 have "only_dirs_made w0 w1"
    by auto
  then have p1: "spawned w1 = spawned w0" by (simp add: only_dirs_made_def)
  from fetch_packages_spawned [OF s4] have p2: "spawned w2 = spawned w1" .
  from update_elm_package_files [OF u] have
    1: "rewrite_configs (resolve w2) (files w2) vendor_dir kept (JString []) configs
          = Inr (files w3, repo)"
    and p3: "spawned w3 = spawned w2"
    by simp_all
  from rewrite_configs_first_repository [OF 1 ne]
  have c: "config_repository w2 (last configs) = Inr repo"
    by (auto simp: config_repository_files)
  from m obtain rs where rs: "namespace_from_repo repo = Inr rs"
    by (auto simp: munge_names_def then_do_eq_Inr)
  then obtain ns nm where nn: "rs = [ns, nm]" using namespace_from_repo_Inr by blast
  with m rs have e: "munge_each w3 vendor_dir ns nm kept = Inr w_end"
    by (simp add: munge_names_def)
  from munge_each_total [of w3 vendor_dir ns nm kept] e p1 p2 p3
  have "spawned w_end = spawned w0 @
         map (\<lambda>p. sed_argv (package_path vendor_dir p)
                    (format_native_name (namespace p) (name p))
                    (format_native_name ns nm)) kept"
    by auto
  with s1 s2 s3 s4 u c m rs nn show "\<exists>raw parsed w1 kept w2 w3 repo ns nm.
             read_native_elm_package w0 native_elm_package = Inr raw
             \<and> parse_json raw = Inr parsed
             \<and> filter_packages w0 vendor_dir parsed = Inr (w1, kept)
             \<and> fetch_packages w1 vendor_dir kept = Inr w2
             \<and> update_elm_package w2 vendor_dir (Some configs) kept = Inr (w3, repo)
             \<and> config_repository w2 (last configs) = Inr repo
             \<and> munge_names w3 vendor_dir repo kept = Inr w_end
             \<and> namespace_from_repo repo = Inr [ns, nm]
             \<and> spawned w_end = spawned w0 @
                 map (\<lambda>p. sed_argv (package_path vendor_dir p)
                            (format_native_name (namespace p) (name p))
                            (format_native_name ns nm)) kept"
    by blast
qed

theorem last_repository_wins_witness:
  "config_repository two_config_world ''elm-package.json'' = Inr (JString ''https://github.com/acme/app.git'')
   \<and> config_repository two_config_world ''tests/elm-package.json'' =
       Inr (JString ''https://github.com/acme/tests.git'')
   \<and> (\<exists>w'. update_elm_package two_config_world ''vendor/assets/elm''
              (Some [''elm-package.json'', ''tests/elm-package.json'']) [nav]
            = Inr (w', JString ''https://github.com/acme/tests.git''))
   \<and> (\<exists>w_end raw w1 w2 w3.
         main two_config_world ''elm-native-package.json''
           (Some [''elm-package.json'', ''tests/elm-package.json'']) ''vendor/assets/elm'' = Inr w_end
         \<and> read_native_elm_package two_config_world ''elm-native-package.json'' = Inr raw
         \<and> parse_json raw = Inr [nav]
         \<and> filter_packages two_config_world ''vendor/assets/elm'' [nav] = Inr (w1, [nav])
         \<and> fetch_packages w1 ''vendor/assets/elm'' [nav] = Inr w2
         \<and> update_elm_package w2 ''vendor/assets/elm''
              (Some [''elm-package.json'', ''tests/elm-package.json'']) [nav]
             = Inr (w3, JString ''https://github.com/acme/tests.git'')
         \<and> config_repository w2 ''tests/elm-package.json'' =
             Inr (JString ''https://github.com/acme/tests.git'')
         \<and> munge_names w3 ''vendor/assets/elm'' (JString ''https://github.com/acme/tests.git'') [nav]
             = Inr w_end
         \<and> namespace_from_repo (JString ''https://github.com/acme/tests.git'') = Inr [''acme'', ''tests'']
         \<and> spawned two_config_world = []
         \<and> spawned w_end = [sed_argv ''vendor/assets/elm/elm-lang/navigation-2.0.0''
                               ''_elm_lang$navigation'' ''_acme$tests''])"
proof -
  let ?cs = "[''elm-package.json'', ''tests/elm-package.json'']"
  let ?v = "''vendor/assets/elm''"
  let ?tests = "JString ''https://github.com/acme/tests.git''"
  let ?run = "update_elm_package two_config_world ?v (Some ?cs) [nav]"
  let ?main = "main two_config_world ''elm-native-package.json'' (Some ?cs) ?v"
  have ne: "?cs \<noteq> []" by simp
  have c1: "config_repository two_config_world ''elm-package.json'' =
              Inr (JString ''https://github.com/acme/app.git'')"
    by code_simp
  have c2: "config_repository two_config_world ''tests/elm-package.json'' = Inr ?tests"
    by code_simp
  have "case ?run of Inl e \<Rightarrow> False | Inr x \<Rightarrow> True"
    by code_simp
  then obtain w' r where run: "?run = Inr (w', r)"
    by (cases ?run) auto
  from last_repository_wins [THEN conjunct1, rule_format, OF conjI [OF run ne]] c2
  have r: "r = ?tests" by simp
  from run r have run': "?run = Inr (w', ?tests)" by simp
  have "case ?main of Inl e \<Rightarrow> False | Inr w \<Rightarrow> True"
    by code_simp
  then obtain w_end where m: "?main = Inr w_end"
    by (cases ?main) auto
  from last_repository_wins [THEN conjunct2, THEN conjunct2, rule_format, OF conjI [OF m ne]]
  obtain raw parsed w1 kept w2 w3 repo ns nm where
    s1: "read_native_elm_package two_config_world ''elm-native-package.json'' = Inr raw" and
    s2: "parse_json raw = Inr parsed" and
    s3: "filter_packages two_config_world ?v parsed = Inr (w1, kept)" and
    s4: "fetch_packages w1 ?v kept = Inr w2" and
    u: "update_elm_package w2 ?v (Some ?cs) kept = Inr (w3, repo)" and
    c: "config_repository w2 (last ?cs) = Inr repo" and
    g: "munge_names w3 ?v repo kept = Inr w_end" and
    n: "namespace_from_repo repo = Inr [ns, nm]" and
    sp: "spawned w_end = spawned two_config_world @
              map (\<lambda>p. sed_argv (package_path ?v p)
                         (format_native_name (namespace p) (name p))
                         (format_native_name ns nm)) kept"
    by blast
  have "then_do (read_native_elm_package two_config_world ''elm-native-package.json'') parse_json
          = Inr [nav]"
    by code_simp
  with s1 s2 have parsed: "parsed = [nav]" by simp
  have "case filter_packages two_config_world ?v [nav] of Inl e \<Rightarrow> False
        | Inr (w, ks) \<Rightarrow> ks = [nav]"
    by code_simp
  with s3 parsed have kept: "kept = [nav]" by simp
  have "case then_do (filter_packages two_config_world ?v [nav])
               (\<lambda>(w, ks). fetch_packages w ?v ks) of
          Inl e \<Rightarrow> False
        | Inr w \<Rightarrow> config_repository w ''tests/elm-package.json'' = Inr ?tests"
    by code_simp
  with s3 s4 parsed kept have c': "config_repository w2 ''tests/elm-package.json'' = Inr ?tests"
    by simp
  with c have repo: "repo = ?tests" by simp
  have nn: "namespace_from_repo ?tests = Inr [''acme'', ''tests'']" by code_simp
  with n repo have ns: "ns = ''acme''" and nm: "nm = ''tests''" by simp_all
  have e: "spawned two_config_world = []" by code_simp
  have "sed_argv (package_path ?v nav) (format_native_name (namespace nav) (name nav))
          (format_native_name ''acme'' ''tests'') =
        sed_argv ''vendor/assets/elm/elm-lang/navigation-2.0.0'' ''_elm_lang$navigation'' ''_acme$tests''"
    by code_simp
  with sp e kept ns nm have s: "spawned w_end =
      [sed_argv ''vendor/assets/elm/elm-lang/navigation-2.0.0'' ''_elm_lang$navigation'' ''_acme$tests'']"
    by simp
  from m s1 s2 s3 s4 u c' g nn e s parsed kept repo have
    "\<exists>w_end raw w1 w2 w3.
         ?main = Inr w_end
         \<and> read_native_elm_package two_config_world ''elm-native-package.json'' = Inr raw
         \<and> parse_json raw = Inr [nav]
         \<and> filter_packages two_config_world ?v [nav] = Inr (w1, [nav])
         \<and> fetch_packages w1 ?v [nav] = Inr w2
         \<and> update_elm_package w2 ?v (Some ?cs) [nav] = Inr (w3, ?tests)
         \<and> config_repository w2 ''tests/elm-package.json'' = Inr ?tests
         \<and> munge_names w3 ?v ?tests [nav] = Inr w_end
         \<and> namespace_from_repo ?tests = Inr [''acme'', ''tests'']
         \<and> spawned two_config_world = []
         \<and> spawned w_end = [sed_argv ''vendor/assets/elm/elm-lang/navigation-2.0.0''
                               ''_elm_lang$navigation'' ''_acme$tests'']"
    by blast
  with c1 c2 run' show ?thesis by blast
qed

subsection \<open>C9: the vendor directory\<close>

text \<open>
  Claim C9 as stated, for every base path, fails for a base path that ends in a
  separator (and for an empty one): the path returned is the \<^verbatim>\<open>os.path.join\<close> of base
  and namespace, which adds no second separator.
\<close>

theorem format_vendor_dir_trailing_slash:
  "(case format_vendor_dir empty_world ''vendor/assets/elm/'' ''elm-lang'' of
      Inr (w', path) \<Rightarrow> path = ''vendor/assets/elm/elm-lang'' \<and> path \<noteq> ''vendor/assets/elm//elm-lang''
    | Inl e \<Rightarrow> False)"
  by code_simp

text \<open>
  Claim C9, amended: \<open>format_vendor_dir\<close> never raises and returns the \<^verbatim>\<open>os.path.join\<close>
  of base and namespace, whatever \<^verbatim>\<open>os.makedirs\<close> does; when \<^verbatim>\<open>os.makedirs\<close> raises, be it
  for an existing directory or for any other reason, the exception is dropped and the
  caller goes on in the file system that \<^verbatim>\<open>os.makedirs\<close> left behind. In every case the
  call has at most made directories: no file, and nothing else of the world, has
  changed. The joined path is \<open>base/namespace\<close> when the base is not empty and does not
  end in a separator and the namespace does not start with one.
\<close>

theorem format_vendor_dir_swallows:
  "(\<exists>w'. format_vendor_dir w base ns = Inr (w', os_path_join base ns) \<and> only_dirs_made w w')
   \<and> (\<forall>w' e. os_makedirs w (os_path_join base ns) = (w', Some e) \<longrightarrow>
         format_vendor_dir w base ns = Inr (w', os_path_join base ns))
   \<and> (base \<noteq> [] \<and> last base \<noteq> CHR ''/'' \<and> \<not> is_absolute ns \<longrightarrow>
         os_path_join base ns = base @ ''/'' @ ns)"
proof (intro conjI allI impI)
  show "\<exists>w'. format_vendor_dir w base ns = Inr (w', os_path_join base ns) \<and> only_dirs_made w w'"
    using format_vendor_dir_total by blast
next
  fix w' e assume "os_makedirs w (os_path_join base ns) = (w', Some e)"
  then show "format_vendor_dir w base ns = Inr (w', os_path_join base ns)"
    by (simp add: format_vendor_dir_eq)
next
  assume "base \<noteq> [] \<and> last base \<noteq> CHR ''/'' \<and> \<not> is_absolute ns"
  then show "os_path_join base ns = base @ ''/'' @ ns"
    by (simp add: os_path_join_plain)
qed

theorem format_vendor_dir_swallows_witness:
  "''foo'' \<noteq> [] \<and> last ''foo'' \<noteq> CHR ''/'' \<and> \<not> is_absolute ''bar''
   \<and> os_path_join ''foo'' ''bar'' = ''foo/bar''
   \<and> \<not> os_path_isdir leaf_denied_world ''foo''
   \<and> (\<exists>w'. os_makedirs leaf_denied_world ''foo/bar'' = (w', Some (OSError EACCES))
          \<and> os_path_isdir w' ''foo'' \<and> \<not> os_path_isdir w' ''foo/bar''
          \<and> format_vendor_dir leaf_denied_world ''foo'' ''bar'' = Inr (w', ''foo/bar''))"
proof -
  let ?m = "os_makedirs leaf_denied_world ''foo/bar''"
  have h: "''foo'' \<noteq> [] \<and> last ''foo'' \<noteq> CHR ''/'' \<and> \<not> is_absolute ''bar''" by simp
  from format_vendor_dir_swallows [of leaf_denied_world "''foo''" "''bar''"] h
  have j: "os_path_join ''foo'' ''bar'' = ''foo/bar''" by simp
  have n: "\<not> os_path_isdir leaf_denied_world ''foo''" by code_simp
  have "case ?m of (w', e) \<Rightarrow> e = Some (OSError EACCES) \<and> os_path_isdir w' ''foo''
                               \<and> \<not> os_path_isdir w' ''foo/bar''"
    by code_simp
  then obtain w' where m: "?m = (w', Some (OSError EACCES))"
    and d: "os_path_isdir w' ''foo''" "\<not> os_path_isdir w' ''foo/bar''"
    by (cases ?m) auto
  from format_vendor_dir_swallows [of leaf_denied_world "''foo''" "''bar''"] j m
  have "format_vendor_dir leaf_denied_world ''foo'' ''bar'' = Inr (w', ''foo/bar'')" by simp
  with h j n m d show ?thesis by blast
qed

subsection \<open>C10: a run without config files\<close>

text \<open>
  Claim C10: with an empty list of config files \<open>update_elm_package\<close> touches nothing
  and returns the empty string; \<open>munge_names\<close> on the empty string raises \<open>ValueError\<close>,
  since the split gives one segment; so a run that got through the fetch stage fails
  there instead of munging.
\<close>

theorem no_configs_fails_in_munge:
  "update_elm_package w vendor (Some []) packages = Inr (w, JString [])
   \<and> munge_names w vendor (JString []) packages = Inl ValueError
   \<and> (read_native_elm_package w native_elm_package = Inr raw
        \<and> parse_json raw = Inr parsed
        \<and> filter_packages w vendor parsed = Inr (w1, kept)
        \<and> fetch_packages w1 vendor kept = Inr w2
      \<longrightarrow> main w native_elm_package (Some []) vendor = Inl ValueError)"
  by (simp add: main_def update_elm_package_def munge_names_def namespace_from_repo_empty
      del: namespace_from_repo.simps)

theorem no_configs_fails_in_munge_witness:
  "(\<exists>raw parsed w1 kept w2.
      read_native_elm_package fresh_world ''elm-native-package.json'' = Inr raw
      \<and> parse_json raw = Inr parsed
      \<and> filter_packages fresh_world ''vendor/assets/elm'' parsed = Inr (w1, kept)
      \<and> kept \<noteq> []
      \<and> fetch_packages w1 ''vendor/assets/elm'' kept = Inr w2
      \<and> update_elm_package w2 ''vendor/assets/elm'' (Some []) kept = Inr (w2, JString [])
      \<and> munge_names w2 ''vendor/assets/elm'' (JString []) kept = Inl ValueError)
   \<and> main fresh_world ''elm-native-package.json'' (Some []) ''vendor/assets/elm'' = Inl ValueError"
proof -
  define r1 where "r1 = read_native_elm_package fresh_world ''elm-native-package.json''"
  define r2 where "r2 = then_do r1 parse_json"
  define r3 where "r3 = then_do r2 (filter_packages fresh_world ''vendor/assets/elm'')"
  define r4 where "r4 = then_do r3 (\<lambda>(w1, kept). fetch_packages w1 ''vendor/assets/elm'' kept)"
  have "(case r4 of Inl e \<Rightarrow> False | Inr w2 \<Rightarrow> True)
        \<and> (case r3 of Inl e \<Rightarrow> False | Inr (w1, kept) \<Rightarrow> kept \<noteq> [])"
    unfolding r4_def r3_def r2_def r1_def by code_simp
  then obtain w2 w1 kept where 4: "r4 = Inr w2" and 3: "r3 = Inr (w1, kept)"
    and ne: "kept \<noteq> []"
    by (cases r4; cases r3) auto
  from 3 obtain parsed where 2: "r2 = Inr parsed"
    and f: "filter_packages fresh_world ''vendor/assets/elm'' parsed = Inr (w1, kept)"
    unfolding r3_def then_do_eq_Inr by blast
  from 2 obtain raw where 1: "r1 = Inr raw" and p: "parse_json raw = Inr parsed"
    unfolding r2_def then_do_eq_Inr by blast
  from 4 3 have g: "fetch_packages w1 ''vendor/assets/elm'' kept = Inr w2"
    unfolding r4_def by simp
  note r = 1 [unfolded r1_def]
  note t = no_configs_fails_in_munge [of w2 "''vendor/assets/elm''" kept]
  from no_configs_fails_in_munge [of fresh_world "''vendor/assets/elm''" "[]"
      "''elm-native-package.json''" raw parsed w1 kept w2] r p f g
  have m: "main fresh_world ''elm-native-package.json'' (Some []) ''vendor/assets/elm'' = Inl ValueError"
    by blast
  from t have "update_elm_package w2 ''vendor/assets/elm'' (Some []) kept = Inr (w2, JString [])"
    and "munge_names w2 ''vendor/assets/elm'' (JString []) kept = Inl ValueError"
    by blast+
  with r p f g ne m show ?thesis by blast
qed

end
